theory Spec2Isabelle
  imports Complex_Main
begin

section \<open>Values shared by the services\<close>

text \<open>
  A JavaScript exception value.  \<open>Error msg\<close> is \<^verbatim>\<open>new Error(msg)\<close> (also used for
  whatever a collaborator rejects with); \<open>KeyOutdatedError msg lastBlock\<close> is the class
  declared at the top of the keys-update service, with its extra field \<^verbatim>\<open>lastBlock\<close>.
\<close>

datatype JsError = Error string | KeyOutdatedError string "int option"

text \<open>Template literals print numbers in decimal.\<close>

definition digit_char :: "nat \<Rightarrow> char" where
  "digit_char d = ''0123456789'' ! d"

function string_of_nat :: "nat \<Rightarrow> string" where
  "string_of_nat n =
     (if n < 10 then [digit_char n] else string_of_nat (n div 10) @ [digit_char (n mod 10)])"
  by pat_completeness auto
termination
  by (relation "measure (\<lambda>n. n)") auto

declare string_of_nat.simps [simp del]

definition string_of_int :: "int \<Rightarrow> string" where
  "string_of_int i = (if i < 0 then CHR ''-'' # string_of_nat (nat (- i)) else string_of_nat (nat i))"

text \<open>
  The types \<^verbatim>\<open>RegistryOperator\<close> and \<^verbatim>\<open>RegistryMeta\<close> come from the registry
  library; the fields below are the ones the services read.
\<close>

record RegistryOperator =
  index :: int
  totalSigningKeys :: int
  usedSigningKeys :: int

record RegistryMeta =
  blockNumber :: int
  blockHash_meta :: string
  keysOpIndex :: int
  timestamp :: int

text \<open>
  Modelled from the spec: the enum \<^verbatim>\<open>STAKING_MODULE_TYPE\<close> is declared in the
  staking-router-modules folder, and the services name one member of it,
  \<^verbatim>\<open>CURATED_ONCHAIN_V1_TYPE\<close>.  The specification lists the curated type and leaves
  the others reserved; any other member is \<open>OTHER_MODULE_TYPE\<close> here.
\<close>

datatype STAKING_MODULE_TYPE = CURATED_ONCHAIN_V1_TYPE | OTHER_MODULE_TYPE string

record StakingModule =
  id_sm :: int
  stakingModuleAddress :: string
  stakingModuleFee :: int
  treasuryFee :: int
  targetShare :: int
  status :: int
  name :: string
  type_sm :: STAKING_MODULE_TYPE
  lastDepositAt :: int
  lastDepositBlock :: int
  exitedValidatorsCount :: int

text \<open>Labels of the gauge \<^verbatim>\<open>registryNumberOfKeysBySRModuleAndOperator\<close>.\<close>

record KeyLabels =
  operator :: int
  srModuleId :: int
  used :: string

section \<open>The keys-update service and the runtime it touches\<close>

text \<open>
  The fields of \<^verbatim>\<open>KeysUpdateService\<close> (a \<^verbatim>\<open>number | undefined\<close> is an \<open>int option\<close>),
  followed by the parts of the runtime its methods act on: the pending \<^verbatim>\<open>setTimeout\<close>
  timers (handle and due time in milliseconds), the errors passed to \<^verbatim>\<open>logger.error\<close>,
  the exit code once \<^verbatim>\<open>process.exit\<close> was called, and the Prometheus gauges.
  Informational and debug log lines are not recorded.
\<close>

record world =
  lastTimestampSec :: "int option"
  lastBlockNumber :: "int option"
  curatedNonce :: "int option"
  curatedOperators :: "RegistryOperator list"
  stakingModules :: "StakingModule list"
  updateDeadlineTimer :: "nat option"
  pendingTimers :: "(nat \<times> int) list"
  nextHandle :: nat
  errorLog :: "JsError list"
  exitCode :: "int option"
  registryLastUpdate :: "int option"
  registryBlockNumber :: "int option"
  registryNonce :: "int \<rightharpoonup> int"
  registryNumberOfKeysBySRModuleAndOperator :: "KeyLabels \<rightharpoonup> int"

definition UPDATE_KEYS_TIMEOUT_MS :: int where
  "UPDATE_KEYS_TIMEOUT_MS = 30 * 60 * 1000"

definition logger_error :: "JsError \<Rightarrow> world \<Rightarrow> world" where
  "logger_error e w = w\<lparr>errorLog := errorLog w @ [e]\<rparr>"

definition process_exit :: "int \<Rightarrow> world \<Rightarrow> world" where
  "process_exit code w = w\<lparr>exitCode := Some code\<rparr>"

text \<open>\<^verbatim>\<open>setTimeout\<close> with the watchdog callback: a fresh handle, due \<open>delay\<close> ms from now.\<close>

definition setTimeout :: "int \<Rightarrow> int \<Rightarrow> world \<Rightarrow> nat \<times> world" where
  "setTimeout now delay w =
     (nextHandle w,
      w\<lparr>pendingTimers := pendingTimers w @ [(nextHandle w, now + delay)],
        nextHandle := Suc (nextHandle w)\<rparr>)"

definition clearTimeout :: "nat \<Rightarrow> world \<Rightarrow> world" where
  "clearTimeout h w = w\<lparr>pendingTimers := filter (\<lambda>(h', d). h' \<noteq> h) (pendingTimers w)\<rparr>"

text \<open>
  The callback given to \<^verbatim>\<open>setTimeout\<close> in \<^verbatim>\<open>checkKeysUpdateTimeout\<close>.  It reads
  \<^verbatim>\<open>this.lastBlockNumber\<close> when it runs, not when the timer was armed.
\<close>

definition deadlineCallback :: "world \<Rightarrow> world" where
  "deadlineCallback w =
     process_exit 1
       (logger_error
          (KeyOutdatedError
             (''There were no keys update more than ''
                @ string_of_int (UPDATE_KEYS_TIMEOUT_MS div (1000 * 60)) @ '' minutes'')
             (lastBlockNumber w))
          w)"

text \<open>
  \<^verbatim>\<open>isUpdated\<close>: \<^verbatim>\<open>this.lastTimestampSec && currTimestampSec - this.lastTimestampSec <
  this.UPDATE_KEYS_TIMEOUT_MS / 1000\<close>, where \<^verbatim>\<open>currTimestampSec\<close> is the clock in ms
  divided by 1000.  \<^verbatim>\<open>undefined\<close> and \<^verbatim>\<open>0\<close> are falsy.  The clock is a whole number of
  milliseconds and the timestamp a whole number of seconds; the division is the exact one.
\<close>

definition isUpdated :: "int \<Rightarrow> world \<Rightarrow> bool" where
  "isUpdated now w =
     (case lastTimestampSec w of
        None \<Rightarrow> False
      | Some t \<Rightarrow> t \<noteq> 0 \<and> real_of_int now / 1000 - real_of_int t < real_of_int UPDATE_KEYS_TIMEOUT_MS / 1000)"

definition checkKeysUpdateTimeout :: "int \<Rightarrow> world \<Rightarrow> world" where
  "checkKeysUpdateTimeout now w =
     (let w1 = (case updateDeadlineTimer w of
                  Some h \<Rightarrow> if isUpdated now w then clearTimeout h w else w
                | None \<Rightarrow> w);
          (h', w2) = setTimeout now UPDATE_KEYS_TIMEOUT_MS w1
      in w2\<lparr>updateDeadlineTimer := Some h'\<rparr>)"

text \<open>
  The event loop reaching wall-clock time \<open>t\<close>: a pending timer that is due runs its
  callback.  Every pending timer carries the same callback, and the first one to run
  ends the process.
\<close>

definition advance :: "int \<Rightarrow> world \<Rightarrow> world" where
  "advance t w =
     (if exitCode w \<noteq> None then w
      else if \<exists>(h, d) \<in> set (pendingTimers w). d \<le> t
      then deadlineCallback (w\<lparr>pendingTimers := filter (\<lambda>(h, d). t < d) (pendingTimers w)\<rparr>)
      else w)"

section \<open>The staking-router fetch service\<close>

text \<open>
  An element of the list returned by the router contract's \<^verbatim>\<open>getStakingModules\<close>.  The
  three fields on which the service calls \<^verbatim>\<open>toNumber()\<close> are big numbers.
\<close>

record RawStakingModule =
  id_raw :: int
  stakingModuleAddress_raw :: string
  stakingModuleFee_raw :: int
  treasuryFee_raw :: int
  targetShare_raw :: int
  status_raw :: int
  name_raw :: string
  lastDepositAt_raw :: int
  lastDepositBlock_raw :: int
  exitedValidatorsCount_raw :: int

text \<open>\<^verbatim>\<open>BigNumber.toNumber()\<close> throws outside the safe integer range.\<close>

definition toNumber :: "int \<Rightarrow> JsError + int" where
  "toNumber b =
     (if - 9007199254740991 \<le> b \<and> b \<le> 9007199254740991 then Inr b else Inl (Error ''overflow''))"

text \<open>
  What the collaborators answer during one refresh cycle.  Every awaited call either
  resolves (\<open>Inr\<close>) or rejects (\<open>Inl\<close>).  Block references are block hashes.

  The reads of \<^verbatim>\<open>getStakingModuleIsActive\<close> are issued together, one for each module
  of the contract's list, and settle when the network answers.  \<open>settlement c i\<close> says
  when the read for the module at position \<open>i\<close> of the list settles: the turn of the
  event loop, and the rank among the reads that settle in that turn.
\<close>

record chain =
  getBlockHash :: "JsError + string"
  getStakingRouter :: "string \<Rightarrow> JsError + string"
  contract_getStakingModules :: "string \<Rightarrow> string \<Rightarrow> JsError + RawStakingModule list"
  getStakingModuleIsActive :: "string \<Rightarrow> int \<Rightarrow> string \<Rightarrow> JsError + bool"
  settlement :: "nat \<Rightarrow> nat \<times> nat"
  curated_updateKeys :: "string \<Rightarrow> JsError + unit"
  getOperatorsWithMeta :: "JsError + RegistryOperator list \<times> RegistryMeta option"

text \<open>
  How one callback of \<^verbatim>\<open>modules.map(async (stakingModule) => ...)\<close> ends: it resolves
  with the transformed module, it rejects, or it logs an error and calls
  \<^verbatim>\<open>process.exit(1)\<close>.
\<close>

datatype 'a settled = Resolved 'a | Rejected JsError | ProcessExit JsError

definition unknownModuleError :: "int \<Rightarrow> JsError" where
  "unknownModuleError i = Error (''Staking Module id '' @ string_of_int i @ '' is unknown'')"

definition transformModule :: "chain \<Rightarrow> string \<Rightarrow> string \<Rightarrow> RawStakingModule \<Rightarrow> StakingModule settled" where
  "transformModule c address blockTag stakingModule =
     (case getStakingModuleIsActive c address (id_raw stakingModule) blockTag of
        Inl e \<Rightarrow> Rejected e
      | Inr isActive \<Rightarrow>
          if id_raw stakingModule \<noteq> 1
          then ProcessExit (unknownModuleError (id_raw stakingModule))
          else
            (case toNumber (lastDepositAt_raw stakingModule) of
               Inl e \<Rightarrow> Rejected e
             | Inr depositAt \<Rightarrow>
                 (case toNumber (lastDepositBlock_raw stakingModule) of
                    Inl e \<Rightarrow> Rejected e
                  | Inr depositBlock \<Rightarrow>
                      (case toNumber (exitedValidatorsCount_raw stakingModule) of
                         Inl e \<Rightarrow> Rejected e
                       | Inr exitedCount \<Rightarrow>
                           Resolved
                             \<lparr>id_sm = id_raw stakingModule,
                              stakingModuleAddress = stakingModuleAddress_raw stakingModule,
                              stakingModuleFee = stakingModuleFee_raw stakingModule,
                              treasuryFee = treasuryFee_raw stakingModule,
                              targetShare = targetShare_raw stakingModule,
                              status = status_raw stakingModule,
                              name = name_raw stakingModule,
                              type_sm = CURATED_ONCHAIN_V1_TYPE,
                              lastDepositAt = depositAt,
                              lastDepositBlock = depositBlock,
                              exitedValidatorsCount = exitedCount\<rparr>))))"

text \<open>
  The modules at which a callback ends the process: the id is not 1 and the read of the
  activity, which comes before the check of the id, has resolved.
\<close>

definition unknownResolved :: "chain \<Rightarrow> string \<Rightarrow> string \<Rightarrow> RawStakingModule \<Rightarrow> bool" where
  "unknownResolved c address blockTag stakingModule =
     (id_raw stakingModule \<noteq> 1
      \<and> (case getStakingModuleIsActive c address (id_raw stakingModule) blockTag of
            Inl e \<Rightarrow> False
          | Inr isActive \<Rightarrow> True))"

text \<open>
  The positions \<open>0..<n\<close> of the list in the order in which their reads settle: by turn,
  and by rank within a turn.
\<close>

definition settleOrder :: "(nat \<Rightarrow> nat \<times> nat) \<Rightarrow> nat \<Rightarrow> nat list" where
  "settleOrder when n = sort_key (\<lambda>i. fst (when i)) (sort_key (\<lambda>i. snd (when i)) [0..<n])"

text \<open>
  The first callback, in that order, that rejects, and the first that ends the process,
  each with the turn in which it runs.
\<close>

fun firstRejection :: "(nat \<times> 'a settled) list \<Rightarrow> (nat \<times> JsError) option" where
  "firstRejection [] = None"
| "firstRejection ((t, Rejected e) # rest) = Some (t, e)"
| "firstRejection ((t, Resolved m) # rest) = firstRejection rest"
| "firstRejection ((t, ProcessExit u) # rest) = firstRejection rest"

fun firstExit :: "(nat \<times> 'a settled) list \<Rightarrow> (nat \<times> JsError) option" where
  "firstExit [] = None"
| "firstExit ((t, ProcessExit u) # rest) = Some (t, u)"
| "firstExit ((t, Resolved m) # rest) = firstExit rest"
| "firstExit ((t, Rejected e) # rest) = firstExit rest"

fun rejectionOf :: "'a settled \<Rightarrow> JsError option" where
  "rejectionOf (Rejected e) = Some e"
| "rejectionOf (Resolved m) = None"
| "rejectionOf (ProcessExit u) = None"

fun resolvedValues :: "'a settled list \<Rightarrow> 'a list" where
  "resolvedValues [] = []"
| "resolvedValues (Resolved m # rest) = m # resolvedValues rest"
| "resolvedValues (Rejected e # rest) = resolvedValues rest"
| "resolvedValues (ProcessExit u # rest) = resolvedValues rest"

text \<open>
  What the caller of \<^verbatim>\<open>getStakingModules\<close> observes: the list, a rejection, or the end
  of the process.  \<^verbatim>\<open>Promise.all\<close> rejects with the first rejection but does not stop
  the other callbacks, and every callback runs when its read has settled.  A rejection
  reaches the handlers of the cycle after the callbacks of its turn have run.  So a
  callback that meets an unknown id ends the process whatever the others did; the
  rejection of the fetch was handled before that, \<open>Exited (Some e) u\<close>, only if it
  happened in an earlier turn.
\<close>

datatype fetch_outcome = Returned "StakingModule list" | Threw JsError | Exited "JsError option" JsError

definition promiseAll :: "(nat \<times> StakingModule settled) list \<Rightarrow> StakingModule settled list \<Rightarrow> fetch_outcome" where
  "promiseAll callbacks results =
     (case firstExit callbacks of
        Some (t, u) \<Rightarrow>
          Exited (case firstRejection callbacks of
                    Some (t0, e) \<Rightarrow> if t0 < t then Some e else None
                  | None \<Rightarrow> None) u
      | None \<Rightarrow>
          (case firstRejection callbacks of
             Some (t0, e) \<Rightarrow> Threw e
           | None \<Rightarrow> Returned (resolvedValues results)))"

definition getStakingModules :: "chain \<Rightarrow> string \<Rightarrow> fetch_outcome" where
  "getStakingModules c blockTag =
     (case getStakingRouter c blockTag of
        Inl e \<Rightarrow> Threw e
      | Inr stakingRouterAddress \<Rightarrow>
          (case contract_getStakingModules c stakingRouterAddress blockTag of
             Inl e \<Rightarrow> Threw e
           | Inr modules \<Rightarrow>
               promiseAll
                 (map (\<lambda>i. (fst (settlement c i), transformModule c stakingRouterAddress blockTag (modules ! i)))
                    (settleOrder (settlement c) (length modules)))
                 (map (transformModule c stakingRouterAddress blockTag) modules)))"

section \<open>The refresh cycle\<close>

text \<open>A gauge with labels is a map from label sets to values.\<close>

definition gauge_set :: "'l \<Rightarrow> int \<Rightarrow> ('l \<rightharpoonup> int) \<Rightarrow> ('l \<rightharpoonup> int)" where
  "gauge_set labels v g = g(labels \<mapsto> v)"

definition gauge_reset :: "('l \<rightharpoonup> int) \<Rightarrow> ('l \<rightharpoonup> int)" where
  "gauge_reset g = Map.empty"

definition setOperator :: "(KeyLabels \<rightharpoonup> int) \<Rightarrow> RegistryOperator \<Rightarrow> (KeyLabels \<rightharpoonup> int)" where
  "setOperator g op =
     gauge_set \<lparr>operator = index op, srModuleId = 1, used = ''false''\<rparr>
       (totalSigningKeys op - usedSigningKeys op)
       (gauge_set \<lparr>operator = index op, srModuleId = 1, used = ''true''\<rparr> (usedSigningKeys op) g)"

definition setCuratedOperatorsMetric :: "world \<Rightarrow> world" where
  "setCuratedOperatorsMetric w =
     w\<lparr>registryNumberOfKeysBySRModuleAndOperator :=
         foldl setOperator (gauge_reset (registryNumberOfKeysBySRModuleAndOperator w)) (curatedOperators w)\<rparr>"

text \<open>A number is truthy unless it is \<^verbatim>\<open>undefined\<close> or \<^verbatim>\<open>0\<close>.\<close>

definition truthy :: "int option \<Rightarrow> bool" where
  "truthy v = (case v of None \<Rightarrow> False | Some n \<Rightarrow> n \<noteq> 0)"

definition setCuratedMetrics :: "world \<Rightarrow> world" where
  "setCuratedMetrics w =
     setCuratedOperatorsMetric
       (case curatedNonce w of
          Some nonce \<Rightarrow>
            if truthy (Some nonce) then w\<lparr>registryNonce := gauge_set 1 nonce (registryNonce w)\<rparr> else w
        | None \<Rightarrow> w)"

definition setMetrics :: "world \<Rightarrow> world" where
  "setMetrics w =
     (let w1 = (if truthy (lastTimestampSec w) then w\<lparr>registryLastUpdate := lastTimestampSec w\<rparr> else w);
          w2 = (if truthy (lastBlockNumber w1) then w1\<lparr>registryBlockNumber := lastBlockNumber w1\<rparr> else w1)
      in setCuratedMetrics w2)"

text \<open>\<^verbatim>\<open>meta?.field ?? old\<close>: the field of a non-null meta, the old value otherwise.\<close>

definition orElse :: "RegistryMeta option \<Rightarrow> (RegistryMeta \<Rightarrow> int) \<Rightarrow> int option \<Rightarrow> int option" where
  "orElse meta field old = (case meta of None \<Rightarrow> old | Some m \<Rightarrow> Some (field m))"

definition updateCuratedMetricsCache :: "chain \<Rightarrow> world \<Rightarrow> JsError + RegistryMeta option \<times> world" where
  "updateCuratedMetricsCache c w =
     (case getOperatorsWithMeta c of
        Inl e \<Rightarrow> Inl e
      | Inr (operators, meta) \<Rightarrow>
          Inr (meta, w\<lparr>curatedNonce := orElse meta keysOpIndex (curatedNonce w),
                       curatedOperators := operators\<rparr>))"

definition updateMetricsCache :: "chain \<Rightarrow> world \<Rightarrow> JsError + world" where
  "updateMetricsCache c w =
     (case updateCuratedMetricsCache c w of
        Inl e \<Rightarrow> Inl e
      | Inr (meta, w1) \<Rightarrow>
          Inr (w1\<lparr>lastTimestampSec := orElse meta timestamp (lastTimestampSec w1),
                  lastBlockNumber := orElse meta blockNumber (lastBlockNumber w1)\<rparr>))"

text \<open>
  The \<^verbatim>\<open>Promise.all\<close> over the cached modules: every curated module asks the curated
  module service to update its keys at the cycle's block hash; the first rejection is the
  result.
\<close>

fun updateModulesKeys :: "chain \<Rightarrow> string \<Rightarrow> StakingModule list \<Rightarrow> JsError option" where
  "updateModulesKeys c blockHash [] = None"
| "updateModulesKeys c blockHash (stakingModule # rest) =
     (if type_sm stakingModule = CURATED_ONCHAIN_V1_TYPE
      then (case curated_updateKeys c blockHash of
              Inl e \<Rightarrow> Some e
            | Inr u \<Rightarrow> updateModulesKeys c blockHash rest)
      else updateModulesKeys c blockHash rest)"

text \<open>
  How the job of \<^verbatim>\<open>updateKeys\<close> ends: it ran to its last statement; it rejected with an
  error, \<open>Failed e late\<close>, where \<open>late\<close> is the error of a callback of the module fetch
  that ends the process in a later turn (see \<open>fetch_outcome\<close>); or the process ended
  inside the module fetch before any rejection was handled.  \<open>now\<close> is the wall clock in
  milliseconds when the last statement runs.
\<close>

datatype cycle_outcome = Completed | Failed JsError "JsError option" | Terminated

definition updateKeys :: "chain \<Rightarrow> int \<Rightarrow> world \<Rightarrow> cycle_outcome \<times> world" where
  "updateKeys c now w =
     (case getBlockHash c of
        Inl e \<Rightarrow> (Failed e None, w)
      | Inr blockHash \<Rightarrow>
          (case getStakingModules c blockHash of
             Exited None u \<Rightarrow> (Terminated, process_exit 1 (logger_error u w))
           | Exited (Some e) u \<Rightarrow> (Failed e (Some u), w)
           | Threw e \<Rightarrow> (Failed e None, w)
           | Returned modules \<Rightarrow>
               (let w1 = w\<lparr>stakingModules := modules\<rparr> in
                (case updateModulesKeys c blockHash (stakingModules w1) of
                   Some e \<Rightarrow> (Failed e None, w1)
                 | None \<Rightarrow>
                     (case updateMetricsCache c w1 of
                        Inl e \<Rightarrow> (Failed e None, w1)
                      | Inr w2 \<Rightarrow> (Completed, checkKeysUpdateTimeout now (setMetrics w2)))))))"

text \<open>
  A trigger, as written in \<^verbatim>\<open>initialize\<close> for the startup run and for every tick of the
  interval: \<^verbatim>\<open>this.updateKeys().catch((error) => this.logger.error(error))\<close>.

  Modelled from the spec: between the job and this catch stand \<^verbatim>\<open>jobService.wrapJob\<close>
  and the decorator \<^verbatim>\<open>OneAtTime\<close>, and around \<^verbatim>\<open>updateMetricsCache\<close> the decorator
  \<^verbatim>\<open>Trace\<close>, all declared in the common folder of the repository.  The specification
  says of a failure that it is logged and surfaces to the scheduler as a failed cycle:
  the wrappers pass the rejection of the job on to the catch and log nothing themselves.
\<close>

definition runUpdateKeys :: "chain \<Rightarrow> int \<Rightarrow> world \<Rightarrow> world" where
  "runUpdateKeys c now w =
     (case updateKeys c now w of
        (Completed, w') \<Rightarrow> w'
      | (Terminated, w') \<Rightarrow> w'
      | (Failed e late, w') \<Rightarrow>
          (case late of
             None \<Rightarrow> logger_error e w'
           | Some u \<Rightarrow> process_exit 1 (logger_error u (logger_error e w'))))"

text \<open>
  The errors of the reads that one cycle issues and that reject.  The reads of the module
  activity are all issued, whatever becomes of their callbacks; the key update and the read
  of operators and meta are issued only after the module fetch has returned.
\<close>

definition activeReadRejections :: "chain \<Rightarrow> string \<Rightarrow> string \<Rightarrow> RawStakingModule list \<Rightarrow> JsError list" where
  "activeReadRejections c address blockTag modules =
     concat (map (\<lambda>stakingModule.
                    case getStakingModuleIsActive c address (id_raw stakingModule) blockTag of
                      Inl e \<Rightarrow> [e]
                    | Inr isActive \<Rightarrow> [])
               modules)"

definition rejectedReads :: "chain \<Rightarrow> JsError list" where
  "rejectedReads c =
     (case getBlockHash c of
        Inl e \<Rightarrow> [e]
      | Inr blockHash \<Rightarrow>
          (case getStakingRouter c blockHash of
             Inl e \<Rightarrow> [e]
           | Inr address \<Rightarrow>
               (case contract_getStakingModules c address blockHash of
                  Inl e \<Rightarrow> [e]
                | Inr modules \<Rightarrow>
                    activeReadRejections c address blockHash modules
                    @ (case getStakingModules c blockHash of
                         Returned cached \<Rightarrow>
                           (case updateModulesKeys c blockHash cached of
                              Some e \<Rightarrow> [e]
                            | None \<Rightarrow> (case getOperatorsWithMeta c of Inl e \<Rightarrow> [e] | Inr r \<Rightarrow> []))
                       | Threw e \<Rightarrow> []
                       | Exited handled u \<Rightarrow> []))))"

text \<open>The freshly constructed service in a freshly started process.\<close>

definition initial_world :: world where
  "initial_world =
     \<lparr>lastTimestampSec = None, lastBlockNumber = None, curatedNonce = None,
      curatedOperators = [], stakingModules = [], updateDeadlineTimer = None,
      pendingTimers = [], nextHandle = 0, errorLog = [], exitCode = None,
      registryLastUpdate = None, registryBlockNumber = None,
      registryNonce = Map.empty, registryNumberOfKeysBySRModuleAndOperator = Map.empty\<rparr>"

section \<open>Looking a module up\<close>

text \<open>
  Modelled from the spec: the type \<^verbatim>\<open>ModuleId\<close> is declared in
  \<^verbatim>\<open>http/common/entities\<close>.  The specification and the comment in
  \<^verbatim>\<open>getStakingModule\<close> say that an identifier arrives as a string or as a number.
\<close>

datatype ModuleId = Str string | Num int

text \<open>
  The operator \<^verbatim>\<open>==\<close> of JavaScript, at the operand types that occur in
  \<^verbatim>\<open>getStakingModule\<close>.  Two strings are equal when they are the same string, two
  numbers when they are the same number; a string and a number are compared after the
  string is converted with the language's string-to-number conversion.  That conversion
  is the parameter \<open>ToNumber\<close>: it yields the integer a string denotes, and \<open>None\<close>
  when the string denotes no integer.
\<close>

fun looseEq_string :: "(string \<Rightarrow> int option) \<Rightarrow> string \<Rightarrow> ModuleId \<Rightarrow> bool" where
  "looseEq_string ToNumber a (Str s) = (a = s)"
| "looseEq_string ToNumber a (Num n) = (ToNumber a = Some n)"

fun looseEq_number :: "(string \<Rightarrow> int option) \<Rightarrow> int \<Rightarrow> ModuleId \<Rightarrow> bool" where
  "looseEq_number ToNumber i (Str s) = (ToNumber s = Some i)"
| "looseEq_number ToNumber i (Num n) = (i = n)"

definition matchesModule :: "(string \<Rightarrow> int option) \<Rightarrow> ModuleId \<Rightarrow> StakingModule \<Rightarrow> bool" where
  "matchesModule ToNumber moduleId m =
     (looseEq_string ToNumber (stakingModuleAddress m) moduleId \<or> looseEq_number ToNumber (id_sm m) moduleId)"

definition getStakingModule :: "(string \<Rightarrow> int option) \<Rightarrow> world \<Rightarrow> ModuleId \<Rightarrow> StakingModule option" where
  "getStakingModule ToNumber w moduleId = find (matchesModule ToNumber moduleId) (stakingModules w)"

section \<open>The registry service: keys by public key\<close>












section \<open>One refresh at a time\<close>

text \<open>
  Modelled from the spec: the decorator \<^verbatim>\<open>OneAtTime\<close> that wraps \<^verbatim>\<open>updateKeys\<close> is
  declared in \<^verbatim>\<open>common/decorators/oneAtTime\<close>, and only its use is in the service.  The
  specification describes it as a state machine: from \<open>Idle\<close> a trigger starts a refresh
  and the state becomes \<open>Running\<close>; a trigger that arrives while \<open>Running\<close> is dropped,
  not queued; when the running refresh is done, with success or failure, the state is
  \<open>Idle\<close> again; once the process has exited the machine is inert.

  \<open>isExecuting\<close> is the state (\<open>True\<close> for \<open>Running\<close>) and \<open>stopped\<close> holds after
  the process exit.  The other fields only count: the refresh executions in progress,
  the refreshes started, the triggers dropped.
\<close>

record scheduler =
  isExecuting :: bool
  stopped :: bool
  active :: nat
  started :: nat
  dropped :: nat

datatype trigger = Invoke | Done bool | Exit

fun oneAtTime :: "scheduler \<Rightarrow> trigger \<Rightarrow> scheduler" where
  "oneAtTime s Invoke =
     (if stopped s then s
      else if isExecuting s then s\<lparr>dropped := Suc (dropped s)\<rparr>
      else s\<lparr>isExecuting := True, active := Suc (active s), started := Suc (started s)\<rparr>)"
| "oneAtTime s (Done success) =
     (if stopped s \<or> active s = 0 then s else s\<lparr>isExecuting := False, active := active s - 1\<rparr>)"
| "oneAtTime s Exit = s\<lparr>isExecuting := False, stopped := True, active := 0\<rparr>"

definition idle :: scheduler where
  "idle = \<lparr>isExecuting = False, stopped = False, active = 0, started = 0, dropped = 0\<rparr>"

definition runTriggers :: "scheduler \<Rightarrow> trigger list \<Rightarrow> scheduler" where
  "runTriggers s ts = foldl oneAtTime s ts"

text \<open>The flag and the count of executions in progress agree.\<close>

definition consistent :: "scheduler \<Rightarrow> bool" where
  "consistent s = (active s = (if isExecuting s then 1 else 0) \<and> (stopped s \<longrightarrow> \<not> isExecuting s))"

section \<open>Concrete runs\<close>

text \<open>
  One curated module as the router contract lists it, two operators, and a chain whose
  reads all succeed and whose registry meta is the argument.
\<close>

definition module1_raw :: RawStakingModule where
  "module1_raw =
     \<lparr>id_raw = 1, stakingModuleAddress_raw = ''0x55032650b14df07b85bF18A3a3eC8E0Af2e028d5'',
      stakingModuleFee_raw = 500, treasuryFee_raw = 500, targetShare_raw = 10000, status_raw = 0,
      name_raw = ''curated-onchain-v1'', lastDepositAt_raw = 1699999000,
      lastDepositBlock_raw = 90, exitedValidatorsCount_raw = 0\<rparr>"

definition module1 :: StakingModule where
  "module1 =
     \<lparr>id_sm = 1, stakingModuleAddress = ''0x55032650b14df07b85bF18A3a3eC8E0Af2e028d5'',
      stakingModuleFee = 500, treasuryFee = 500, targetShare = 10000, status = 0,
      name = ''curated-onchain-v1'', type_sm = CURATED_ONCHAIN_V1_TYPE, lastDepositAt = 1699999000,
      lastDepositBlock = 90, exitedValidatorsCount = 0\<rparr>"

definition operators2 :: "RegistryOperator list" where
  "operators2 =
     [\<lparr>index = 0, totalSigningKeys = 10, usedSigningKeys = 4\<rparr>,
      \<lparr>index = 1, totalSigningKeys = 7, usedSigningKeys = 7\<rparr>]"

definition healthy_chain :: "RegistryMeta option \<Rightarrow> chain" where
  "healthy_chain meta =
     \<lparr>getBlockHash = Inr ''0xb10c'',
      getStakingRouter = (\<lambda>blockTag. Inr ''0xFdDf38947aFB03C621C71b06C9C70bce73f12999''),
      contract_getStakingModules = (\<lambda>address blockTag. Inr [module1_raw]),
      getStakingModuleIsActive = (\<lambda>address i blockTag. Inr True),
      settlement = (\<lambda>i. (0, i)),
      curated_updateKeys = (\<lambda>blockHash. Inr ()),
      getOperatorsWithMeta = Inr (operators2, meta)\<rparr>"

definition meta100 :: RegistryMeta where
  "meta100 = \<lparr>blockNumber = 100, blockHash_meta = ''0xb10c'', keysOpIndex = 5, timestamp = 1700000000\<rparr>"

definition meta99 :: RegistryMeta where
  "meta99 = \<lparr>blockNumber = 99, blockHash_meta = ''0xb10b'', keysOpIndex = 4, timestamp = 1699999988\<rparr>"

text \<open>A meta whose block is almost three hours older than the wall clock of the runs below.\<close>

definition meta_old :: RegistryMeta where
  "meta_old = \<lparr>blockNumber = 50, blockHash_meta = ''0xb032'', keysOpIndex = 3, timestamp = 1699990000\<rparr>"

text \<open>The module fetch succeeds, the key update of the curated module rejects.\<close>

definition keys_update_fails :: chain where
  "keys_update_fails = (healthy_chain (Some meta100))\<lparr>curated_updateKeys := (\<lambda>blockHash. Inl (Error ''timeout''))\<rparr>"

text \<open>The contract lists a module with id 2; reading whether it is active rejects.\<close>

definition module2_raw :: RawStakingModule where
  "module2_raw = module1_raw\<lparr>id_raw := 2, name_raw := ''community-onchain-v1''\<rparr>"

definition unknown_module_read_fails :: chain where
  "unknown_module_read_fails =
     (healthy_chain (Some meta100))
       \<lparr>contract_getStakingModules := (\<lambda>address blockTag. Inr [module2_raw]),
        getStakingModuleIsActive := (\<lambda>address i blockTag. Inl (Error ''timeout''))\<rparr>"

text \<open>
  The contract lists modules 2 and 12; the read for module 2 rejects, the read for module
  12 resolves.  The argument says when the two reads settle.
\<close>

definition module12_raw :: RawStakingModule where
  "module12_raw = module1_raw\<lparr>id_raw := 12, name_raw := ''simple-dvt-onchain-v1''\<rparr>"

definition rejects_and_unknown :: "(nat \<Rightarrow> nat \<times> nat) \<Rightarrow> chain" where
  "rejects_and_unknown when =
     (healthy_chain (Some meta100))
       \<lparr>contract_getStakingModules := (\<lambda>address blockTag. Inr [module2_raw, module12_raw]),
        getStakingModuleIsActive :=
          (\<lambda>address i blockTag. if i = 2 then Inl (Error ''timeout'') else Inr True),
        settlement := when\<rparr>"

text \<open>The contract lists modules 2 and 12 and both reads resolve.\<close>

definition two_unknown :: chain where
  "two_unknown =
     (healthy_chain (Some meta100))
       \<lparr>contract_getStakingModules := (\<lambda>address blockTag. Inr [module2_raw, module12_raw])\<rparr>"

definition unknown_module :: chain where
  "unknown_module =
     (healthy_chain (Some meta100))\<lparr>contract_getStakingModules := (\<lambda>address blockTag. Inr [module1_raw, module2_raw])\<rparr>"

text \<open>
  The service right after \<^verbatim>\<open>initialize\<close> armed the first deadline, and the service
  after a first completed cycle that fetched \<open>meta100\<close>.
\<close>

definition armed_world :: world where
  "armed_world = checkKeysUpdateTimeout 1700000000000 initial_world"

definition cached100 :: world where
  "cached100 = runUpdateKeys (healthy_chain (Some meta100)) 1700000012000 initial_world"

text \<open>The two label sets the operator gauge carries for one operator.\<close>

definition operatorLabels :: "RegistryOperator \<Rightarrow> KeyLabels set" where
  "operatorLabels op =
     {\<lparr>operator = index op, srModuleId = 1, used = ''true''\<rparr>,
      \<lparr>operator = index op, srModuleId = 1, used = ''false''\<rparr>}"

text \<open>
  The service after a cycle that saw operators 0 and 5, at the point where the next cycle
  has cached operators 0 and 1 and is about to rebuild the gauge.
\<close>

definition operator5_removed :: world where
  "operator5_removed =
     initial_world
       \<lparr>curatedOperators := operators2,
        registryNumberOfKeysBySRModuleAndOperator :=
          [\<lparr>operator = 0, srModuleId = 1, used = ''true''\<rparr> \<mapsto> 3,
           \<lparr>operator = 0, srModuleId = 1, used = ''false''\<rparr> \<mapsto> 7,
           \<lparr>operator = 5, srModuleId = 1, used = ''true''\<rparr> \<mapsto> 2,
           \<lparr>operator = 5, srModuleId = 1, used = ''false''\<rparr> \<mapsto> 0]\<rparr>"

text \<open>A string-to-number conversion that knows the decimal strings of 1 and 2.\<close>

definition decimal12 :: "string \<Rightarrow> int option" where
  "decimal12 s = (if s = ''1'' then Some 1 else if s = ''2'' then Some 2 else None)"



section \<open>Facts about the cycle\<close>

lemma checkKeysUpdateTimeout_cache [simp]:
  "lastTimestampSec (checkKeysUpdateTimeout now w) = lastTimestampSec w"
  "lastBlockNumber (checkKeysUpdateTimeout now w) = lastBlockNumber w"
  "curatedNonce (checkKeysUpdateTimeout now w) = curatedNonce w"
  "curatedOperators (checkKeysUpdateTimeout now w) = curatedOperators w"
  "stakingModules (checkKeysUpdateTimeout now w) = stakingModules w"
  "errorLog (checkKeysUpdateTimeout now w) = errorLog w"
  "exitCode (checkKeysUpdateTimeout now w) = exitCode w"
  "registryNumberOfKeysBySRModuleAndOperator (checkKeysUpdateTimeout now w) = registryNumberOfKeysBySRModuleAndOperator w"
  by (simp_all add: checkKeysUpdateTimeout_def setTimeout_def clearTimeout_def Let_def split: option.splits)

lemma setMetrics_cache [simp]:
  "lastTimestampSec (setMetrics w) = lastTimestampSec w"
  "lastBlockNumber (setMetrics w) = lastBlockNumber w"
  "curatedNonce (setMetrics w) = curatedNonce w"
  "curatedOperators (setMetrics w) = curatedOperators w"
  "stakingModules (setMetrics w) = stakingModules w"
  "errorLog (setMetrics w) = errorLog w"
  "exitCode (setMetrics w) = exitCode w"
  "pendingTimers (setMetrics w) = pendingTimers w"
  "nextHandle (setMetrics w) = nextHandle w"
  "updateDeadlineTimer (setMetrics w) = updateDeadlineTimer w"
  by (simp_all add: setMetrics_def setCuratedMetrics_def setCuratedOperatorsMetric_def Let_def
      split: option.splits)

lemma updateKeys_Completed:
  assumes "updateKeys c now w = (Completed, w')"
  obtains bh ms ops meta where
    "getBlockHash c = Inr bh" "getStakingModules c bh = Returned ms"
    "updateModulesKeys c bh ms = None" "getOperatorsWithMeta c = Inr (ops, meta)"
    "w' = checkKeysUpdateTimeout now (setMetrics
           (w\<lparr>stakingModules := ms,
              curatedNonce := orElse meta keysOpIndex (curatedNonce w),
              curatedOperators := ops,
              lastTimestampSec := orElse meta timestamp (lastTimestampSec w),
              lastBlockNumber := orElse meta blockNumber (lastBlockNumber w)\<rparr>))"
  using assms
  by (auto simp: updateKeys_def updateMetricsCache_def updateCuratedMetricsCache_def Let_def
      split: sum.splits fetch_outcome.splits option.splits prod.splits)

lemma updateKeys_Failed:
  assumes "updateKeys c now w = (Failed e late, w')"
  shows "(getBlockHash c = Inl e \<and> late = None \<and> w' = w)
       \<or> (\<exists>bh. getBlockHash c = Inr bh \<and> getStakingModules c bh = Threw e \<and> late = None \<and> w' = w)
       \<or> (\<exists>bh u. getBlockHash c = Inr bh \<and> getStakingModules c bh = Exited (Some e) u
             \<and> late = Some u \<and> w' = w)
       \<or> (\<exists>bh ms. getBlockHash c = Inr bh \<and> getStakingModules c bh = Returned ms \<and> late = None
             \<and> (updateModulesKeys c bh ms = Some e
                  \<or> updateModulesKeys c bh ms = None \<and> getOperatorsWithMeta c = Inl e)
             \<and> w' = w\<lparr>stakingModules := ms\<rparr>)"
  using assms
  by (auto simp: updateKeys_def updateMetricsCache_def updateCuratedMetricsCache_def Let_def
      split: sum.splits fetch_outcome.splits option.splits prod.splits)

lemma updateKeys_Terminated:
  assumes "updateKeys c now w = (Terminated, w')"
  shows "\<exists>bh u. getBlockHash c = Inr bh \<and> getStakingModules c bh = Exited None u
           \<and> w' = process_exit 1 (logger_error u w)"
  using assms
  by (auto simp: updateKeys_def updateMetricsCache_def updateCuratedMetricsCache_def Let_def
      split: sum.splits fetch_outcome.splits option.splits prod.splits)

lemmas cycle_defs =
  updateKeys_def runUpdateKeys_def getStakingModules_def promiseAll_def settleOrder_def
  transformModule_def toNumber_def
  updateMetricsCache_def updateCuratedMetricsCache_def orElse_def setMetrics_def
  setCuratedMetrics_def setCuratedOperatorsMetric_def setOperator_def truthy_def gauge_set_def gauge_reset_def
  checkKeysUpdateTimeout_def isUpdated_def setTimeout_def clearTimeout_def
  UPDATE_KEYS_TIMEOUT_MS_def logger_error_def process_exit_def Let_def

lemmas run_defs =
  healthy_chain_def module1_raw_def module1_def operators2_def meta100_def initial_world_def

lemma checkKeysUpdateTimeout_timers:
  "pendingTimers (checkKeysUpdateTimeout now w) =
     (case updateDeadlineTimer w of
        Some h \<Rightarrow> if isUpdated now w then filter (\<lambda>(h', d). h' \<noteq> h) (pendingTimers w) else pendingTimers w
      | None \<Rightarrow> pendingTimers w) @ [(nextHandle w, now + UPDATE_KEYS_TIMEOUT_MS)]"
  "updateDeadlineTimer (checkKeysUpdateTimeout now w) = Some (nextHandle w)"
  "nextHandle (checkKeysUpdateTimeout now w) = Suc (nextHandle w)"
  by (simp_all add: checkKeysUpdateTimeout_def setTimeout_def clearTimeout_def Let_def split: option.splits)

lemma isUpdated_cong:
  "lastTimestampSec w = lastTimestampSec v \<Longrightarrow> isUpdated now w = isUpdated now v"
  by (simp add: isUpdated_def)

lemma due_timer_exits_1:
  assumes "(h, d) \<in> set (pendingTimers w)" "d \<le> t" "exitCode w = None"
  shows "exitCode (advance t w) = Some 1"
  using assms by (auto simp: advance_def deadlineCallback_def process_exit_def logger_error_def)

section \<open>Facts about the module fetch\<close>

lemma transformModule_Resolved:
  "transformModule c a bt r = Resolved m \<Longrightarrow> id_sm m = 1 \<and> type_sm m = CURATED_ONCHAIN_V1_TYPE"
  by (auto simp: transformModule_def split: sum.splits if_splits)

lemma transformModule_ProcessExit:
  "transformModule c a bt r = ProcessExit u \<longleftrightarrow> unknownResolved c a bt r \<and> u = unknownModuleError (id_raw r)"
  by (auto simp: transformModule_def unknownResolved_def split: sum.splits if_splits)

lemma transformModule_Rejected:
  "transformModule c a bt r = Rejected e \<Longrightarrow>
     getStakingModuleIsActive c a (id_raw r) bt = Inl e \<or> e = Error ''overflow''"
  by (auto simp: transformModule_def toNumber_def split: sum.splits if_splits)

lemma transformModule_read_rejects:
  "getStakingModuleIsActive c a (id_raw r) bt = Inl e \<Longrightarrow> transformModule c a bt r = Rejected e"
  by (simp add: transformModule_def)

lemma settleOrder_set: "set (settleOrder when n) = {0..<n}"
  by (simp add: settleOrder_def)

lemma firstExit_find:
  "firstExit (map (\<lambda>i. (turn i, transformModule c a bt (raws ! i))) order)
     = map_option (\<lambda>i. (turn i, unknownModuleError (id_raw (raws ! i))))
         (find (\<lambda>i. unknownResolved c a bt (raws ! i)) order)"
proof (induction order)
  case Nil
  then show ?case by simp
next
  case (Cons i order)
  show ?case
  proof (cases "transformModule c a bt (raws ! i)")
    case (Resolved m)
    then have "\<not> unknownResolved c a bt (raws ! i)"
      using transformModule_ProcessExit [of c a bt "raws ! i"] by auto
    with Resolved Cons show ?thesis by simp
  next
    case (Rejected e)
    then have "\<not> unknownResolved c a bt (raws ! i)"
      using transformModule_ProcessExit [of c a bt "raws ! i"] by auto
    with Rejected Cons show ?thesis by simp
  next
    case (ProcessExit u)
    then have "unknownResolved c a bt (raws ! i)" "u = unknownModuleError (id_raw (raws ! i))"
      using transformModule_ProcessExit [of c a bt "raws ! i" u] by auto
    with ProcessExit show ?thesis by simp
  qed
qed

lemma firstRejection_Some:
  "firstRejection evs = Some (t, e) \<Longrightarrow> (t, Rejected e) \<in> set evs"
  by (induction evs rule: firstRejection.induct) auto

lemma firstRejection_None:
  "firstRejection evs = None \<Longrightarrow> (t, Rejected e) \<notin> set evs"
  by (induction evs rule: firstRejection.induct) auto

lemma firstRejection_find:
  "firstRejection (map (\<lambda>i. (turn i, f i)) order)
     = (case find (\<lambda>j. rejectionOf (f j) \<noteq> None) order of
          None \<Rightarrow> None
        | Some j \<Rightarrow> map_option (Pair (turn j)) (rejectionOf (f j)))"
proof (induction order)
  case Nil
  then show ?case by simp
next
  case (Cons i order)
  then show ?case by (cases "f i") simp_all
qed

lemma getStakingModules_listed:
  assumes "getStakingRouter c bh = Inr a" "contract_getStakingModules c a bh = Inr raws"
  shows "getStakingModules c bh =
           promiseAll
             (map (\<lambda>i. (fst (settlement c i), transformModule c a bh (raws ! i)))
                (settleOrder (settlement c) (length raws)))
             (map (transformModule c a bh) raws)"
  using assms by (simp add: getStakingModules_def)

lemma resolvedValues_mem: "m \<in> set (resolvedValues xs) \<Longrightarrow> Resolved m \<in> set xs"
  by (induction xs rule: resolvedValues.induct) auto

lemma rejected_read_listed:
  "r \<in> set raws \<Longrightarrow> getStakingModuleIsActive c a (id_raw r) bh = Inl e
     \<Longrightarrow> e \<in> set (activeReadRejections c a bh raws)"
  by (auto simp: activeReadRejections_def intro!: bexI [of _ r])

lemma getStakingModules_Returned_known:
  assumes "getStakingModules c bh = Returned ms" "m \<in> set ms"
  shows "id_sm m = 1 \<and> type_sm m = CURATED_ONCHAIN_V1_TYPE"
proof -
  from assms(1) obtain a raws where "ms = resolvedValues (map (transformModule c a bh) raws)"
    by (auto simp: getStakingModules_def promiseAll_def split: sum.splits option.splits prod.splits)
  with assms(2) have "m \<in> set (resolvedValues (map (transformModule c a bh) raws))"
    by simp
  then have "Resolved m \<in> set (map (transformModule c a bh) raws)"
    by (rule resolvedValues_mem)
  then obtain r where "transformModule c a bh r = Resolved m"
    by auto
  then show ?thesis by (rule transformModule_Resolved)
qed

lemma rejected_callback:
  assumes "(t, Rejected e) \<in> set (map (\<lambda>i. (turn i, transformModule c a bh (raws ! i))) (settleOrder when (length raws)))"
  shows "e \<in> set (activeReadRejections c a bh raws) \<or> e = Error ''overflow''"
proof -
  from assms obtain i where i: "i < length raws" "transformModule c a bh (raws ! i) = Rejected e"
    by (auto simp: settleOrder_set)
  from transformModule_Rejected [OF i(2)] show ?thesis
  proof
    assume "getStakingModuleIsActive c a (id_raw (raws ! i)) bh = Inl e"
    with i(1) have "e \<in> set (activeReadRejections c a bh raws)"
      using rejected_read_listed [of "raws ! i" raws c a bh e] by simp
    then show ?thesis ..
  next
    assume "e = Error ''overflow''"
    then show ?thesis ..
  qed
qed

lemma no_rejection_no_rejected_read:
  assumes "firstRejection (map (\<lambda>i. (turn i, transformModule c a bh (raws ! i))) (settleOrder when (length raws))) = None"
  shows "activeReadRejections c a bh raws = []"
proof -
  have "getStakingModuleIsActive c a (id_raw r) bh \<noteq> Inl e" if "r \<in> set raws" for r e
  proof
    assume rej: "getStakingModuleIsActive c a (id_raw r) bh = Inl e"
    from that obtain i where i: "i < length raws" "raws ! i = r"
      by (auto simp: in_set_conv_nth)
    then have "(turn i, Rejected e) \<in> set (map (\<lambda>i. (turn i, transformModule c a bh (raws ! i))) (settleOrder when (length raws)))"
      using transformModule_read_rejects [OF rej] by (force simp: settleOrder_set)
    with firstRejection_None [OF assms] show False by blast
  qed
  then show ?thesis
    by (auto simp: activeReadRejections_def split: sum.splits)
qed

lemma no_exit_keeps_process:
  assumes "\<And>bh h u. getBlockHash c = Inr bh \<Longrightarrow> getStakingModules c bh \<noteq> Exited h u"
  shows "exitCode (runUpdateKeys c now w) = exitCode w"
proof (cases "getBlockHash c")
  case (Inl e)
  then show ?thesis
    by (simp add: runUpdateKeys_def updateKeys_def logger_error_def)
next
  case (Inr bh)
  with assms have "getStakingModules c bh \<noteq> Exited h u" for h u by blast
  with Inr show ?thesis
    by (cases "getStakingModules c bh")
      (auto simp: runUpdateKeys_def updateKeys_def updateMetricsCache_def updateCuratedMetricsCache_def
        logger_error_def Let_def split: option.splits sum.splits)
qed

lemma getStakingModules_inv:
  assumes "getStakingModules c bh = X"
  shows "(\<exists>e. getStakingRouter c bh = Inl e \<and> X = Threw e)
       \<or> (\<exists>a e. getStakingRouter c bh = Inr a \<and> contract_getStakingModules c a bh = Inl e \<and> X = Threw e)
       \<or> (\<exists>a raws. getStakingRouter c bh = Inr a \<and> contract_getStakingModules c a bh = Inr raws
             \<and> X = promiseAll
                     (map (\<lambda>i. (fst (settlement c i), transformModule c a bh (raws ! i)))
                        (settleOrder (settlement c) (length raws)))
                     (map (transformModule c a bh) raws))"
  using assms by (auto simp: getStakingModules_def split: sum.splits)

lemma promiseAll_Threw:
  assumes "promiseAll cbs rs = Threw e"
  shows "\<exists>t. (t, Rejected e) \<in> set cbs"
proof -
  from assms obtain t0 where "firstRejection cbs = Some (t0, e)"
    by (auto simp: promiseAll_def split: option.splits)
  then show ?thesis by (blast dest: firstRejection_Some)
qed

lemma promiseAll_Exited_handled:
  assumes "promiseAll cbs rs = Exited (Some e) u"
  shows "\<exists>t. (t, Rejected e) \<in> set cbs"
proof -
  from assms obtain t0 where "firstRejection cbs = Some (t0, e)"
    by (auto simp: promiseAll_def split: option.splits if_splits)
  then show ?thesis by (blast dest: firstRejection_Some)
qed

lemma promiseAll_Returned:
  "promiseAll cbs rs = Returned ms \<Longrightarrow> firstRejection cbs = None"
  by (auto simp: promiseAll_def split: option.splits)

lemma getStakingModules_Exited_unknown:
  assumes "getStakingModules c bh = Exited h u"
  shows "\<exists>k. k \<noteq> 1 \<and> u = unknownModuleError k"
proof -
  from getStakingModules_inv [OF assms] obtain a raws where
    "Exited h u = promiseAll
                     (map (\<lambda>i. (fst (settlement c i), transformModule c a bh (raws ! i)))
                        (settleOrder (settlement c) (length raws)))
                     (map (transformModule c a bh) raws)"
    by auto
  then obtain t where
    "firstExit (map (\<lambda>i. (fst (settlement c i), transformModule c a bh (raws ! i)))
                        (settleOrder (settlement c) (length raws))) = Some (t, u)"
    by (auto simp: promiseAll_def split: option.splits)
  then obtain i where "unknownResolved c a bh (raws ! i)" "u = unknownModuleError (id_raw (raws ! i))"
    by (auto simp: firstExit_find find_Some_iff)
  then show ?thesis by (auto simp: unknownResolved_def)
qed

lemma fetch_rejection_is_read:
  assumes bh: "getBlockHash c = Inr bh"
    and x: "getStakingModules c bh = Threw e \<or> getStakingModules c bh = Exited (Some e) u"
  shows "e \<in> set (rejectedReads c) \<or> e = Error ''overflow''"
proof -
  from x obtain X where X: "getStakingModules c bh = X" "X = Threw e \<or> X = Exited (Some e) u"
    by blast
  from getStakingModules_inv [OF X(1)] show ?thesis
  proof (elim disjE exE conjE)
    fix e' assume "getStakingRouter c bh = Inl e'" "X = Threw e'"
    with X bh show ?thesis by (auto simp: rejectedReads_def)
  next
    fix a e' assume "getStakingRouter c bh = Inr a" "contract_getStakingModules c a bh = Inl e'" "X = Threw e'"
    with X bh show ?thesis by (auto simp: rejectedReads_def)
  next
    fix a raws
    assume a: "getStakingRouter c bh = Inr a" and r: "contract_getStakingModules c a bh = Inr raws"
      and p: "X = promiseAll
                     (map (\<lambda>i. (fst (settlement c i), transformModule c a bh (raws ! i)))
                        (settleOrder (settlement c) (length raws)))
                     (map (transformModule c a bh) raws)"
    from X(2) p obtain t where
      "(t, Rejected e) \<in> set (map (\<lambda>i. (fst (settlement c i), transformModule c a bh (raws ! i)))
                        (settleOrder (settlement c) (length raws)))"
      using promiseAll_Threw promiseAll_Exited_handled by metis
    from rejected_callback [OF this]
    have "e \<in> set (activeReadRejections c a bh raws) \<or> e = Error ''overflow''" .
    moreover have "set (activeReadRejections c a bh raws) \<subseteq> set (rejectedReads c)"
      using bh a r by (simp add: rejectedReads_def)
    ultimately show ?thesis by blast
  qed
qed

lemma rejectedReads_Returned:
  assumes bh: "getBlockHash c = Inr bh" and ret: "getStakingModules c bh = Returned ms"
  shows "rejectedReads c =
           (case updateModulesKeys c bh ms of
              Some e \<Rightarrow> [e]
            | None \<Rightarrow> (case getOperatorsWithMeta c of Inl e \<Rightarrow> [e] | Inr r \<Rightarrow> []))"
proof -
  from getStakingModules_inv [OF ret] obtain a raws where
    a: "getStakingRouter c bh = Inr a" and r: "contract_getStakingModules c a bh = Inr raws"
    and p: "Returned ms = promiseAll
                     (map (\<lambda>i. (fst (settlement c i), transformModule c a bh (raws ! i)))
                        (settleOrder (settlement c) (length raws)))
                     (map (transformModule c a bh) raws)"
    by auto
  from p [symmetric] have "firstRejection (map (\<lambda>i. (fst (settlement c i), transformModule c a bh (raws ! i)))
                        (settleOrder (settlement c) (length raws))) = None"
    by (rule promiseAll_Returned)
  then have "activeReadRejections c a bh raws = []"
    by (rule no_rejection_no_rejected_read)
  with bh a r ret show ?thesis
    by (simp add: rejectedReads_def)
qed

lemma failed_or_terminated_keeps:
  assumes "fst (updateKeys c now w) \<noteq> Completed"
  shows "lastTimestampSec (runUpdateKeys c now w) = lastTimestampSec w
       \<and> lastBlockNumber (runUpdateKeys c now w) = lastBlockNumber w
       \<and> curatedNonce (runUpdateKeys c now w) = curatedNonce w
       \<and> curatedOperators (runUpdateKeys c now w) = curatedOperators w
       \<and> pendingTimers (runUpdateKeys c now w) = pendingTimers w
       \<and> updateDeadlineTimer (runUpdateKeys c now w) = updateDeadlineTimer w
       \<and> stakingModules (runUpdateKeys c now w) =
           (case getBlockHash c of
              Inl e' \<Rightarrow> stakingModules w
            | Inr bh \<Rightarrow>
                (case getStakingModules c bh of
                   Returned ms \<Rightarrow> ms
                 | Threw e' \<Rightarrow> stakingModules w
                 | Exited h u \<Rightarrow> stakingModules w))"
proof (cases "updateKeys c now w")
  case (Pair out w')
  with assms have nc: "out \<noteq> Completed" by simp
  show ?thesis
  proof (cases out)
    case Completed
    with nc show ?thesis by simp
  next
    case (Failed e late)
    with Pair have f: "updateKeys c now w = (Failed e late, w')" by simp
    from updateKeys_Failed [OF f] f show ?thesis
      by (auto simp: runUpdateKeys_def logger_error_def process_exit_def split: option.splits)
  next
    case Terminated
    with Pair have t: "updateKeys c now w = (Terminated, w')" by simp
    from updateKeys_Terminated [OF t] t show ?thesis
      by (auto simp: runUpdateKeys_def logger_error_def process_exit_def)
  qed
qed

lemma string_of_nat_2: "string_of_nat 2 = ''2''"
  by (simp add: string_of_nat.simps [of 2] digit_char_def)

lemma string_of_nat_12: "string_of_nat 12 = ''12''"
  by (simp add: string_of_nat.simps [of 12] string_of_nat.simps [of "Suc 0"] digit_char_def)

lemmas unknown_defs =
  unknownModuleError_def string_of_int_def string_of_nat_2 string_of_nat_12
  module2_raw_def module12_raw_def unknownResolved_def

section \<open>The watchdog deadline\<close>

lemma string_of_nat_30: "string_of_nat 30 = ''30''"
  by (simp add: string_of_nat.simps [of 30] string_of_nat.simps [of 3] digit_char_def)

text \<open>
  C6.  The watchdog timeout is 30 minutes, and every arming sets a deadline that far
  ahead.  When the event loop reaches a deadline that is still pending, the callback logs
  one \<open>KeyOutdatedError\<close> whose \<open>lastBlock\<close> is the block number cached at that
  moment and calls \<open>process.exit(1)\<close>; nothing else changes in the log, and once the
  process has exited the event loop does nothing more: no retry, no backoff.
\<close>

theorem deadline_fires_logs_and_exits:
  "UPDATE_KEYS_TIMEOUT_MS = 30 * 60 * 1000
   \<and> (nextHandle w, now + 30 * 60 * 1000) \<in> set (pendingTimers (checkKeysUpdateTimeout now w))
   \<and> errorLog (deadlineCallback w) =
       errorLog w @ [KeyOutdatedError ''There were no keys update more than 30 minutes'' (lastBlockNumber w)]
   \<and> exitCode (deadlineCallback w) = Some 1
   \<and> ((h, d) \<in> set (pendingTimers w) \<and> d \<le> t \<and> exitCode w = None \<longrightarrow>
        errorLog (advance t w) =
          errorLog w @ [KeyOutdatedError ''There were no keys update more than 30 minutes'' (lastBlockNumber w)]
        \<and> exitCode (advance t w) = Some 1
        \<and> advance t' (advance t w) = advance t w)"
proof -
  have cb: "errorLog (deadlineCallback v) =
       errorLog v @ [KeyOutdatedError ''There were no keys update more than 30 minutes'' (lastBlockNumber v)]"
    "exitCode (deadlineCallback v) = Some 1" for v
    by (simp_all add: deadlineCallback_def process_exit_def logger_error_def
        UPDATE_KEYS_TIMEOUT_MS_def string_of_int_def string_of_nat_30)
  have due: "advance t w = deadlineCallback (w\<lparr>pendingTimers := filter (\<lambda>(h, d). t < d) (pendingTimers w)\<rparr>)"
    if "(h, d) \<in> set (pendingTimers w)" "d \<le> t" "exitCode w = None"
    using that by (auto simp: advance_def)
  have "errorLog (advance t w) =
          errorLog w @ [KeyOutdatedError ''There were no keys update more than 30 minutes'' (lastBlockNumber w)]
        \<and> exitCode (advance t w) = Some 1
        \<and> advance t' (advance t w) = advance t w"
    if "(h, d) \<in> set (pendingTimers w)" "d \<le> t" "exitCode w = None"
    unfolding due [OF that] by (simp add: cb) (simp add: advance_def cb)
  then show ?thesis
    using cb [of w] by (simp add: checkKeysUpdateTimeout_timers UPDATE_KEYS_TIMEOUT_MS_def)
qed

theorem deadline_fires_logs_and_exits_witness:
  "(0, 1700001812000) \<in> set (pendingTimers cached100) \<and> exitCode cached100 = None
   \<and> lastBlockNumber cached100 = Some 100
   \<and> errorLog (advance 1700001812000 cached100)
       = [KeyOutdatedError ''There were no keys update more than 30 minutes'' (Some 100)]
   \<and> exitCode (advance 1700001812000 cached100) = Some 1"
proof -
  have c: "(0, 1700001812000) \<in> set (pendingTimers cached100)" "exitCode cached100 = None"
    "lastBlockNumber cached100 = Some 100" "errorLog cached100 = []"
    by (simp_all add: cached100_def cycle_defs run_defs)
  from deadline_fires_logs_and_exits [of cached100 0 0 1700001812000 1700001812000] c
  show ?thesis by simp
qed

section \<open>What a completed cycle stores\<close>

text \<open>
  C2, as claimed: a cycle whose fetched meta has a block number below the cached one leaves
  the cache unchanged.  It does not hold: after a first cycle cached block 100, a second
  cycle that fetches block 99 completes and stores block 99, with its timestamp and
  nonce.
\<close>

theorem stale_meta_overwrites_cache:
  "fst (updateKeys (healthy_chain (Some meta100)) 1700000012000 initial_world) = Completed
   \<and> lastBlockNumber (runUpdateKeys (healthy_chain (Some meta100)) 1700000012000 initial_world) = Some 100
   \<and> blockNumber meta99 < 100
   \<and> fst (updateKeys (healthy_chain (Some meta99)) 1700000024000
            (runUpdateKeys (healthy_chain (Some meta100)) 1700000012000 initial_world)) = Completed
   \<and> lastBlockNumber
        (runUpdateKeys (healthy_chain (Some meta99)) 1700000024000
           (runUpdateKeys (healthy_chain (Some meta100)) 1700000012000 initial_world)) = Some 99
   \<and> lastTimestampSec
        (runUpdateKeys (healthy_chain (Some meta99)) 1700000024000
           (runUpdateKeys (healthy_chain (Some meta100)) 1700000012000 initial_world)) = Some 1699999988
   \<and> curatedNonce
        (runUpdateKeys (healthy_chain (Some meta99)) 1700000024000
           (runUpdateKeys (healthy_chain (Some meta100)) 1700000012000 initial_world)) = Some 4"
  by (simp add: cycle_defs run_defs meta99_def)

text \<open>
  C2, as the service behaves: a completed cycle stores the fetched module list and
  operators, and stores block number, timestamp and nonce of the fetched meta whenever that
  meta is not null, whatever the cached values were; with a null meta the three values
  stay.
\<close>

theorem completed_cycle_overwrites_cache:
  assumes "updateKeys c now w = (Completed, w')"
  shows "\<exists>bh ms ops meta.
           getBlockHash c = Inr bh \<and> getStakingModules c bh = Returned ms
           \<and> getOperatorsWithMeta c = Inr (ops, meta)
           \<and> stakingModules w' = ms \<and> curatedOperators w' = ops
           \<and> lastBlockNumber w' = orElse meta blockNumber (lastBlockNumber w)
           \<and> lastTimestampSec w' = orElse meta timestamp (lastTimestampSec w)
           \<and> curatedNonce w' = orElse meta keysOpIndex (curatedNonce w)"
  using assms by (elim updateKeys_Completed) simp

theorem completed_cycle_overwrites_cache_witness:
  "updateKeys (healthy_chain (Some meta99)) 1700000024000 cached100
     = (Completed, runUpdateKeys (healthy_chain (Some meta99)) 1700000024000 cached100)
   \<and> lastBlockNumber cached100 = Some 100
   \<and> lastBlockNumber (runUpdateKeys (healthy_chain (Some meta99)) 1700000024000 cached100) = Some 99"
proof -
  have h: "updateKeys (healthy_chain (Some meta99)) 1700000024000 cached100
             = (Completed, runUpdateKeys (healthy_chain (Some meta99)) 1700000024000 cached100)"
    by (simp add: cached100_def cycle_defs run_defs meta99_def)
  have m: "getOperatorsWithMeta (healthy_chain (Some meta99)) = Inr (operators2, Some meta99)"
    by (simp add: healthy_chain_def)
  have b: "lastBlockNumber cached100 = Some 100"
    by (simp add: cached100_def cycle_defs run_defs meta99_def)
  from completed_cycle_overwrites_cache [OF h] m b h show ?thesis
    by (auto simp: orElse_def meta99_def)
qed

section \<open>What a failed cycle leaves behind\<close>

lemmas read_defs = rejectedReads_def activeReadRejections_def

text \<open>
  C4, as claimed: a cycle in which a chain read throws publishes nothing.  It does not hold
  for the module list: when the module fetch succeeds and the key update of the curated
  module rejects, the fetched list is already cached.
\<close>

theorem failed_key_update_replaces_modules:
  "rejectedReads keys_update_fails = [Error ''timeout'']
   \<and> updateKeys keys_update_fails 1700000012000 initial_world
       = (Failed (Error ''timeout'') None, initial_world\<lparr>stakingModules := [module1]\<rparr>)
   \<and> stakingModules initial_world = []
   \<and> stakingModules (runUpdateKeys keys_update_fails 1700000012000 initial_world) = [module1]"
  by (simp add: read_defs cycle_defs run_defs keys_update_fails_def)

text \<open>
  C4, as the service behaves: when a read that the cycle issues rejects, the cycle does not
  complete; timestamp, block number, nonce and operators keep their values and no timer
  is armed or cleared.  The module list keeps its value unless the module fetch had
  returned: then the fetched list is cached although the cycle failed.  The cycle ends
  in one of two ways.  Either the job rejects, with the error of a read or of a number
  conversion, and logs nothing itself; the catch of the trigger logs that error, and
  the process goes on, unless the module fetch reports a callback that met an unknown
  module id after the rejection was handled: then that id is logged next and the process
  exits.  Or a callback of the module fetch meets an unknown module id before any
  rejection is handled: then the process exits with the unknown id logged, and the
  error of the read is not logged.
\<close>

theorem failed_cycle_effects:
  assumes "rejectedReads c \<noteq> []"
  shows "fst (updateKeys c now w) \<noteq> Completed
       \<and> lastTimestampSec (runUpdateKeys c now w) = lastTimestampSec w
       \<and> lastBlockNumber (runUpdateKeys c now w) = lastBlockNumber w
       \<and> curatedNonce (runUpdateKeys c now w) = curatedNonce w
       \<and> curatedOperators (runUpdateKeys c now w) = curatedOperators w
       \<and> pendingTimers (runUpdateKeys c now w) = pendingTimers w
       \<and> updateDeadlineTimer (runUpdateKeys c now w) = updateDeadlineTimer w
       \<and> stakingModules (runUpdateKeys c now w) =
           (case getBlockHash c of
              Inl e' \<Rightarrow> stakingModules w
            | Inr bh \<Rightarrow>
                (case getStakingModules c bh of
                   Returned ms \<Rightarrow> ms
                 | Threw e' \<Rightarrow> stakingModules w
                 | Exited h u \<Rightarrow> stakingModules w))
       \<and> (case fst (updateKeys c now w) of
            Completed \<Rightarrow> False
          | Failed e late \<Rightarrow>
              (e \<in> set (rejectedReads c) \<or> e = Error ''overflow'')
              \<and> errorLog (snd (updateKeys c now w)) = errorLog w
              \<and> exitCode (snd (updateKeys c now w)) = exitCode w
              \<and> (case late of
                    None \<Rightarrow>
                      errorLog (runUpdateKeys c now w) = errorLog w @ [e]
                      \<and> exitCode (runUpdateKeys c now w) = exitCode w
                  | Some u \<Rightarrow>
                      (\<exists>k. k \<noteq> 1 \<and> u = unknownModuleError k)
                      \<and> errorLog (runUpdateKeys c now w) = errorLog w @ [e, u]
                      \<and> exitCode (runUpdateKeys c now w) = Some 1)
          | Terminated \<Rightarrow>
              (\<exists>k. k \<noteq> 1 \<and> errorLog (runUpdateKeys c now w) = errorLog w @ [unknownModuleError k])
              \<and> exitCode (runUpdateKeys c now w) = Some 1)"
proof (cases "updateKeys c now w")
  case (Pair out w')
  have nc: "out \<noteq> Completed"
  proof
    assume "out = Completed"
    with Pair have "updateKeys c now w = (Completed, w')" by simp
    then obtain bh ms ops meta where
      "getBlockHash c = Inr bh" "getStakingModules c bh = Returned ms"
      "updateModulesKeys c bh ms = None" "getOperatorsWithMeta c = Inr (ops, meta)"
      by (elim updateKeys_Completed)
    then have "rejectedReads c = []"
      by (simp add: rejectedReads_Returned)
    with assms show False by simp
  qed
  with Pair have keeps: "fst (updateKeys c now w) \<noteq> Completed" by simp
  note k = failed_or_terminated_keeps [OF keeps]
  have detail: "(case out of
            Completed \<Rightarrow> False
          | Failed e late \<Rightarrow>
              (e \<in> set (rejectedReads c) \<or> e = Error ''overflow'')
              \<and> errorLog w' = errorLog w
              \<and> exitCode w' = exitCode w
              \<and> (case late of
                    None \<Rightarrow>
                      errorLog (runUpdateKeys c now w) = errorLog w @ [e]
                      \<and> exitCode (runUpdateKeys c now w) = exitCode w
                  | Some u \<Rightarrow>
                      (\<exists>k. k \<noteq> 1 \<and> u = unknownModuleError k)
                      \<and> errorLog (runUpdateKeys c now w) = errorLog w @ [e, u]
                      \<and> exitCode (runUpdateKeys c now w) = Some 1)
          | Terminated \<Rightarrow>
              (\<exists>k. k \<noteq> 1 \<and> errorLog (runUpdateKeys c now w) = errorLog w @ [unknownModuleError k])
              \<and> exitCode (runUpdateKeys c now w) = Some 1)"
  proof (cases out)
    case Completed
    with nc show ?thesis by simp
  next
    case Terminated
    with Pair have t: "updateKeys c now w = (Terminated, w')" by simp
    from updateKeys_Terminated [OF t] obtain bh u where
      ex: "getStakingModules c bh = Exited None u" and w': "w' = process_exit 1 (logger_error u w)"
      by blast
    from getStakingModules_Exited_unknown [OF ex] obtain k where "k \<noteq> 1" "u = unknownModuleError k"
      by blast
    with t w' Terminated show ?thesis
      by (auto simp: runUpdateKeys_def process_exit_def logger_error_def)
  next
    case (Failed e late)
    with Pair have f: "updateKeys c now w = (Failed e late, w')" by simp
    have run: "runUpdateKeys c now w =
                 (case late of None \<Rightarrow> logger_error e w'
                  | Some u \<Rightarrow> process_exit 1 (logger_error u (logger_error e w')))"
      by (simp add: runUpdateKeys_def f)
    from updateKeys_Failed [OF f]
    consider (hash) "getBlockHash c = Inl e" "late = None" "w' = w"
      | (threw) bh where "getBlockHash c = Inr bh" "getStakingModules c bh = Threw e" "late = None" "w' = w"
      | (exited) bh u where "getBlockHash c = Inr bh" "getStakingModules c bh = Exited (Some e) u"
          "late = Some u" "w' = w"
      | (later) bh ms where "getBlockHash c = Inr bh" "getStakingModules c bh = Returned ms" "late = None"
          "updateModulesKeys c bh ms = Some e
            \<or> updateModulesKeys c bh ms = None \<and> getOperatorsWithMeta c = Inl e"
          "w' = w\<lparr>stakingModules := ms\<rparr>"
      by blast
    then show ?thesis
    proof cases
      case hash
      then have "e \<in> set (rejectedReads c)" by (simp add: rejectedReads_def)
      with hash Failed run show ?thesis by (simp add: logger_error_def)
    next
      case threw
      then have "e \<in> set (rejectedReads c) \<or> e = Error ''overflow''"
        using fetch_rejection_is_read [of c bh e] by blast
      with threw Failed run show ?thesis by (simp add: logger_error_def)
    next
      case exited
      then have "e \<in> set (rejectedReads c) \<or> e = Error ''overflow''"
        using fetch_rejection_is_read [of c bh e u] by blast
      moreover from getStakingModules_Exited_unknown [OF exited(2)]
      have "\<exists>k. k \<noteq> 1 \<and> u = unknownModuleError k" .
      ultimately show ?thesis
        using exited Failed run by (simp add: logger_error_def process_exit_def)
    next
      case later
      then have "e \<in> set (rejectedReads c)"
        by (auto simp: rejectedReads_Returned)
      with later Failed run show ?thesis by (simp add: logger_error_def)
    qed
  qed
  from nc k detail show ?thesis unfolding Pair fst_conv snd_conv by simp
qed

theorem failed_cycle_effects_witness:
  "rejectedReads keys_update_fails = [Error ''timeout'']
   \<and> errorLog (runUpdateKeys keys_update_fails 1700000012000 initial_world) = [Error ''timeout'']
   \<and> exitCode (runUpdateKeys keys_update_fails 1700000012000 initial_world) = None
   \<and> lastBlockNumber (runUpdateKeys keys_update_fails 1700000012000 initial_world) = None
   \<and> pendingTimers (runUpdateKeys keys_update_fails 1700000012000 initial_world) = []
   \<and> rejectedReads (rejects_and_unknown (\<lambda>i. (0, i))) = [Error ''timeout'']
   \<and> fst (updateKeys (rejects_and_unknown (\<lambda>i. (0, i))) 1700000012000 initial_world) = Terminated
   \<and> errorLog (runUpdateKeys (rejects_and_unknown (\<lambda>i. (0, i))) 1700000012000 initial_world)
       = [Error ''Staking Module id 12 is unknown'']
   \<and> exitCode (runUpdateKeys (rejects_and_unknown (\<lambda>i. (0, i))) 1700000012000 initial_world) = Some 1
   \<and> fst (updateKeys (rejects_and_unknown (\<lambda>i. (i, 0))) 1700000012000 initial_world)
       = Failed (Error ''timeout'') (Some (Error ''Staking Module id 12 is unknown''))
   \<and> errorLog (runUpdateKeys (rejects_and_unknown (\<lambda>i. (i, 0))) 1700000012000 initial_world)
       = [Error ''timeout'', Error ''Staking Module id 12 is unknown'']
   \<and> exitCode (runUpdateKeys (rejects_and_unknown (\<lambda>i. (i, 0))) 1700000012000 initial_world) = Some 1
   \<and> lastBlockNumber (runUpdateKeys (rejects_and_unknown (\<lambda>i. (i, 0))) 1700000012000 initial_world) = None"
proof -
  let ?same = "rejects_and_unknown (\<lambda>i. (0, i))"
  let ?apart = "rejects_and_unknown (\<lambda>i. (i, 0))"
  have i: "errorLog initial_world = []" "exitCode initial_world = None" "lastBlockNumber initial_world = None"
    "pendingTimers initial_world = []"
    by (simp_all add: initial_world_def)
  have r1: "rejectedReads keys_update_fails = [Error ''timeout'']"
    by (simp add: read_defs cycle_defs run_defs keys_update_fails_def)
  have o1: "fst (updateKeys keys_update_fails 1700000012000 initial_world) = Failed (Error ''timeout'') None"
    by (simp add: cycle_defs run_defs keys_update_fails_def)
  from r1 have n1: "rejectedReads keys_update_fails \<noteq> []" by simp
  from failed_cycle_effects [OF n1, of 1700000012000 initial_world] o1 i
  have w1: "errorLog (runUpdateKeys keys_update_fails 1700000012000 initial_world) = [Error ''timeout'']"
    "exitCode (runUpdateKeys keys_update_fails 1700000012000 initial_world) = None"
    "lastBlockNumber (runUpdateKeys keys_update_fails 1700000012000 initial_world) = None"
    "pendingTimers (runUpdateKeys keys_update_fails 1700000012000 initial_world) = []"
    by simp_all
  have r2: "rejectedReads ?same = [Error ''timeout'']"
    by (simp add: read_defs cycle_defs run_defs rejects_and_unknown_def unknown_defs)
  have o2: "fst (updateKeys ?same 1700000012000 initial_world) = Terminated"
    by (simp add: cycle_defs run_defs rejects_and_unknown_def unknown_defs)
  have l2: "errorLog (runUpdateKeys ?same 1700000012000 initial_world) = [Error ''Staking Module id 12 is unknown'']"
    by (simp add: cycle_defs run_defs rejects_and_unknown_def unknown_defs)
  from r2 have n2: "rejectedReads ?same \<noteq> []" by simp
  from failed_cycle_effects [OF n2, of 1700000012000 initial_world] o2
  have w2: "exitCode (runUpdateKeys ?same 1700000012000 initial_world) = Some 1"
    by simp
  have r3: "rejectedReads ?apart = [Error ''timeout'']"
    by (simp add: read_defs cycle_defs run_defs rejects_and_unknown_def unknown_defs)
  have o3: "fst (updateKeys ?apart 1700000012000 initial_world)
              = Failed (Error ''timeout'') (Some (Error ''Staking Module id 12 is unknown''))"
    by (simp add: cycle_defs run_defs rejects_and_unknown_def unknown_defs)
  from r3 have n3: "rejectedReads ?apart \<noteq> []" by simp
  from failed_cycle_effects [OF n3, of 1700000012000 initial_world] o3 i
  have w3: "errorLog (runUpdateKeys ?apart 1700000012000 initial_world)
              = [Error ''timeout'', Error ''Staking Module id 12 is unknown'']"
    "exitCode (runUpdateKeys ?apart 1700000012000 initial_world) = Some 1"
    "lastBlockNumber (runUpdateKeys ?apart 1700000012000 initial_world) = None"
    by simp_all
  from r1 w1 r2 o2 l2 w2 o3 w3 show ?thesis by (intro conjI)
qed


section \<open>The watchdog across cycles\<close>

text \<open>
  C3, as claimed: the watchdog records the wall-clock time of every completed cycle, and
  the process goes on while cycles complete within the timeout.  It does not hold: the
  service is started at 1700000000000 ms, a cycle completes one second later and another
  one 25 minutes later, both with a meta whose block is hours old.  The stored timestamp
  is the one of that block, the first deadline is never cleared, and the process exits 30
  minutes after the start, five minutes after the last completed cycle.
\<close>

theorem timely_cycles_still_exit:
  "fst (updateKeys (healthy_chain (Some meta_old)) 1700000001000 armed_world) = Completed
   \<and> fst (updateKeys (healthy_chain (Some meta_old)) 1700001500000
            (advance 1700001500000 (runUpdateKeys (healthy_chain (Some meta_old)) 1700000001000 armed_world)))
       = Completed
   \<and> exitCode (runUpdateKeys (healthy_chain (Some meta_old)) 1700001500000
                 (advance 1700001500000 (runUpdateKeys (healthy_chain (Some meta_old)) 1700000001000 armed_world)))
       = None
   \<and> lastTimestampSec (runUpdateKeys (healthy_chain (Some meta_old)) 1700001500000
                 (advance 1700001500000 (runUpdateKeys (healthy_chain (Some meta_old)) 1700000001000 armed_world)))
       = Some 1699990000
   \<and> exitCode (advance 1700001800000
                 (runUpdateKeys (healthy_chain (Some meta_old)) 1700001500000
                    (advance 1700001500000 (runUpdateKeys (healthy_chain (Some meta_old)) 1700000001000 armed_world))))
       = Some 1"
  by (simp add: armed_world_def advance_def deadlineCallback_def cycle_defs run_defs meta_old_def)

text \<open>
  C3, as the service behaves: a completed cycle stores the timestamp of the fetched meta
  (the cached one when the meta is null), not the wall clock.  It arms a new deadline 30
  minutes ahead, and clears the deadline armed before only if the stored timestamp is not
  zero and less than 30 minutes behind the wall clock.  Any deadline that comes due ends
  the process: the new one if nothing clears it in time, and every older one that was
  left pending.
\<close>

theorem watchdog_after_completed_cycle:
  assumes "updateKeys c now w = (Completed, w')"
  shows "(\<exists>ops meta. getOperatorsWithMeta c = Inr (ops, meta)
            \<and> lastTimestampSec w' = orElse meta timestamp (lastTimestampSec w))
       \<and> updateDeadlineTimer w' = Some (nextHandle w)
       \<and> pendingTimers w' =
           (case updateDeadlineTimer w of
              Some h \<Rightarrow> if isUpdated now w' then filter (\<lambda>(h', d). h' \<noteq> h) (pendingTimers w)
                        else pendingTimers w
            | None \<Rightarrow> pendingTimers w) @ [(nextHandle w, now + UPDATE_KEYS_TIMEOUT_MS)]
       \<and> (\<forall>t. exitCode w' = None \<and> now + UPDATE_KEYS_TIMEOUT_MS \<le> t \<longrightarrow> exitCode (advance t w') = Some 1)
       \<and> (\<forall>h d t. \<not> isUpdated now w' \<and> (h, d) \<in> set (pendingTimers w) \<and> d \<le> t \<and> exitCode w' = None
             \<longrightarrow> exitCode (advance t w') = Some 1)"
proof -
  from assms obtain bh ms ops meta where
    m: "getOperatorsWithMeta c = Inr (ops, meta)" and
    w': "w' = checkKeysUpdateTimeout now (setMetrics
           (w\<lparr>stakingModules := ms,
              curatedNonce := orElse meta keysOpIndex (curatedNonce w),
              curatedOperators := ops,
              lastTimestampSec := orElse meta timestamp (lastTimestampSec w),
              lastBlockNumber := orElse meta blockNumber (lastBlockNumber w)\<rparr>))"
    by (elim updateKeys_Completed)
  let ?v = "setMetrics
           (w\<lparr>stakingModules := ms,
              curatedNonce := orElse meta keysOpIndex (curatedNonce w),
              curatedOperators := ops,
              lastTimestampSec := orElse meta timestamp (lastTimestampSec w),
              lastBlockNumber := orElse meta blockNumber (lastBlockNumber w)\<rparr>)"
  have ts: "lastTimestampSec w' = orElse meta timestamp (lastTimestampSec w)"
    by (simp add: w')
  have upd: "isUpdated now ?v = isUpdated now w'"
    by (rule isUpdated_cong) (simp add: w')
  have timers: "pendingTimers w' =
           (case updateDeadlineTimer w of
              Some h \<Rightarrow> if isUpdated now w' then filter (\<lambda>(h', d). h' \<noteq> h) (pendingTimers w)
                        else pendingTimers w
            | None \<Rightarrow> pendingTimers w) @ [(nextHandle w, now + UPDATE_KEYS_TIMEOUT_MS)]"
    unfolding upd [symmetric] by (simp add: w' checkKeysUpdateTimeout_timers split: option.splits)
  have handle: "updateDeadlineTimer w' = Some (nextHandle w)"
    by (simp add: w' checkKeysUpdateTimeout_timers)
  have new: "(nextHandle w, now + UPDATE_KEYS_TIMEOUT_MS) \<in> set (pendingTimers w')"
    by (simp add: timers)
  have old: "\<not> isUpdated now w' \<Longrightarrow> (h, d) \<in> set (pendingTimers w) \<Longrightarrow> (h, d) \<in> set (pendingTimers w')" for h d
    by (simp add: timers split: option.splits)
  show ?thesis
    using m ts handle timers due_timer_exits_1 [OF new] due_timer_exits_1 [OF old]
    by blast
qed

theorem watchdog_after_completed_cycle_witness:
  "updateKeys (healthy_chain (Some meta_old)) 1700000001000 armed_world
     = (Completed, runUpdateKeys (healthy_chain (Some meta_old)) 1700000001000 armed_world)
   \<and> lastTimestampSec (runUpdateKeys (healthy_chain (Some meta_old)) 1700000001000 armed_world) = Some 1699990000
   \<and> pendingTimers (runUpdateKeys (healthy_chain (Some meta_old)) 1700000001000 armed_world)
       = [(0, 1700001800000), (1, 1700001801000)]
   \<and> exitCode (advance 1700001800000 (runUpdateKeys (healthy_chain (Some meta_old)) 1700000001000 armed_world))
       = Some 1
   \<and> exitCode (advance 1700001801000 (runUpdateKeys (healthy_chain (Some meta_old)) 1700000001000 armed_world))
       = Some 1"
proof -
  let ?w' = "runUpdateKeys (healthy_chain (Some meta_old)) 1700000001000 armed_world"
  have h: "updateKeys (healthy_chain (Some meta_old)) 1700000001000 armed_world = (Completed, ?w')"
    by (simp add: armed_world_def cycle_defs run_defs meta_old_def)
  have m: "getOperatorsWithMeta (healthy_chain (Some meta_old)) = Inr (operators2, Some meta_old)"
    by (simp add: healthy_chain_def)
  have e: "exitCode ?w' = None"
    by (simp add: armed_world_def cycle_defs run_defs meta_old_def)
  have a: "updateDeadlineTimer armed_world = Some 0" "pendingTimers armed_world = [(0, 1700001800000)]"
    "nextHandle armed_world = 1" "lastTimestampSec armed_world = None"
    by (simp_all add: armed_world_def cycle_defs run_defs meta_old_def)
  note w = watchdog_after_completed_cycle [OF h]
  from w m a have ts: "lastTimestampSec ?w' = Some 1699990000"
    by (auto simp: orElse_def meta_old_def)
  then have nu: "\<not> isUpdated 1700000001000 ?w'"
    by (simp add: isUpdated_def UPDATE_KEYS_TIMEOUT_MS_def)
  from w a nu have t: "pendingTimers ?w' = [(0, 1700001800000), (1, 1700001801000)]"
    by (simp add: UPDATE_KEYS_TIMEOUT_MS_def)
  from w e have x: "exitCode (advance 1700001801000 ?w') = Some 1"
    by (simp add: UPDATE_KEYS_TIMEOUT_MS_def)
  from w e nu a have y: "exitCode (advance 1700001800000 ?w') = Some 1"
    by simp
  from h ts t x y show ?thesis by simp
qed

section \<open>Re-arming the deadline\<close>

text \<open>
  C5, as claimed: every re-arming cancels the pending deadline first, so at most one
  deadline timer is pending.  It does not hold: the first cycle after the start fetches a
  null meta and completes; the timer armed at the start is not cleared, and two timers
  are pending.
\<close>

theorem null_meta_leaves_two_timers:
  "fst (updateKeys (healthy_chain None) 1700000001000 armed_world) = Completed
   \<and> pendingTimers armed_world = [(0, 1700001800000)]
   \<and> pendingTimers (runUpdateKeys (healthy_chain None) 1700000001000 armed_world)
       = [(0, 1700001800000), (1, 1700001801000)]"
  by (simp add: armed_world_def cycle_defs run_defs)

text \<open>
  C5, as the service behaves: a re-arming clears the timer it armed before exactly when
  the cached timestamp is fresh (\<open>isUpdated\<close>), and always arms a new one.  With a
  fresh timestamp, and no pending timer other than the one armed before, exactly one
  timer is pending afterwards.  Without a fresh timestamp the earlier timers stay pending
  next to the new one.
\<close>

theorem rearm_clears_prior_timer_only_when_updated:
  "(updateDeadlineTimer w = Some h \<and> isUpdated now w \<longrightarrow>
      pendingTimers (checkKeysUpdateTimeout now w)
        = filter (\<lambda>(h', d). h' \<noteq> h) (pendingTimers w) @ [(nextHandle w, now + UPDATE_KEYS_TIMEOUT_MS)])
   \<and> (updateDeadlineTimer w = None \<or> \<not> isUpdated now w \<longrightarrow>
      pendingTimers (checkKeysUpdateTimeout now w)
        = pendingTimers w @ [(nextHandle w, now + UPDATE_KEYS_TIMEOUT_MS)])
   \<and> (isUpdated now w \<and> (\<forall>(h', d) \<in> set (pendingTimers w). updateDeadlineTimer w = Some h') \<longrightarrow>
      pendingTimers (checkKeysUpdateTimeout now w) = [(nextHandle w, now + UPDATE_KEYS_TIMEOUT_MS)])"
proof -
  have "filter (\<lambda>(h', d). h' \<noteq> h) (pendingTimers w) = []"
    if "\<forall>(h', d) \<in> set (pendingTimers w). updateDeadlineTimer w = Some h'" "updateDeadlineTimer w = Some h" for h
    using that by (auto simp: filter_empty_conv)
  moreover have "pendingTimers w = []"
    if "\<forall>(h', d) \<in> set (pendingTimers w). updateDeadlineTimer w = Some h'" "updateDeadlineTimer w = None"
    using that by (cases "pendingTimers w") auto
  ultimately show ?thesis
    by (auto simp: checkKeysUpdateTimeout_timers split: option.splits)
qed

theorem rearm_clears_prior_timer_only_when_updated_witness:
  "updateDeadlineTimer cached100 = Some 0 \<and> isUpdated 1700000024000 cached100
   \<and> pendingTimers cached100 = [(0, 1700001812000)]
   \<and> pendingTimers (checkKeysUpdateTimeout 1700000024000 cached100) = [(1, 1700001824000)]
   \<and> updateDeadlineTimer armed_world = Some 0 \<and> \<not> isUpdated 1700000001000 armed_world
   \<and> pendingTimers (checkKeysUpdateTimeout 1700000001000 armed_world)
       = [(0, 1700001800000), (1, 1700001801000)]"
proof -
  have c: "updateDeadlineTimer cached100 = Some 0" "isUpdated 1700000024000 cached100"
    "pendingTimers cached100 = [(0, 1700001812000)]" "nextHandle cached100 = 1"
    by (simp_all add: cached100_def cycle_defs run_defs)
  have a: "updateDeadlineTimer armed_world = Some 0" "\<not> isUpdated 1700000001000 armed_world"
    "pendingTimers armed_world = [(0, 1700001800000)]" "nextHandle armed_world = 1"
    by (simp_all add: armed_world_def cycle_defs run_defs)
  from rearm_clears_prior_timer_only_when_updated [of cached100 0 1700000024000]
    rearm_clears_prior_timer_only_when_updated [of armed_world 0 1700000001000] c a
  show ?thesis by (simp add: UPDATE_KEYS_TIMEOUT_MS_def)
qed

section \<open>Modules of unknown type\<close>

text \<open>
  C7, as claimed: for every fetched module that cannot be classified, the fetch logs an
  error and ends the process.  It does not hold when the read that precedes the
  classification rejects: the contract lists a module with id 2 and no other, reading
  whether it is active rejects, and the fetch rejects with that error while the process
  goes on.
\<close>

theorem unknown_module_read_rejects:
  "contract_getStakingModules unknown_module_read_fails ''0xFdDf38947aFB03C621C71b06C9C70bce73f12999'' ''0xb10c''
     = Inr [module2_raw]
   \<and> id_raw module2_raw = 2
   \<and> getStakingModules unknown_module_read_fails ''0xb10c'' = Threw (Error ''timeout'')
   \<and> exitCode (runUpdateKeys unknown_module_read_fails 1700000012000 initial_world) = None
   \<and> errorLog (runUpdateKeys unknown_module_read_fails 1700000012000 initial_world) = [Error ''timeout'']"
  by (simp add: cycle_defs run_defs unknown_module_read_fails_def module2_raw_def)

text \<open>
  C7, as the service behaves: a module is classified by its id, after the read of its
  activity has resolved.  When the list of the contract holds a module whose id is not 1
  and whose read resolves, the callback of the first such module to settle logs the
  error that names its id and the process exits with code 1; the cached module list is
  not replaced.  Before that error the cycle logs the rejection of the fetch if the
  first callback to reject settled in an earlier turn of the event loop, and nothing
  otherwise.  When the list holds no such module the fetch does not end the process.
  Every module the fetch returns has id 1 and the type \<open>CURATED_ONCHAIN_V1_TYPE\<close>.
\<close>

theorem unknown_module_ends_process:
  assumes "getBlockHash c = Inr bh" "getStakingRouter c bh = Inr a"
    "contract_getStakingModules c a bh = Inr raws"
  shows "(case find (\<lambda>i. unknownResolved c a bh (raws ! i)) (settleOrder (settlement c) (length raws)) of
            Some i \<Rightarrow>
              i < length raws
              \<and> (\<exists>handled.
                    getStakingModules c bh = Exited handled (unknownModuleError (id_raw (raws ! i)))
                    \<and> handled =
                        (case find (\<lambda>j. rejectionOf (transformModule c a bh (raws ! j)) \<noteq> None)
                                (settleOrder (settlement c) (length raws)) of
                           None \<Rightarrow> None
                         | Some j \<Rightarrow>
                             if fst (settlement c j) < fst (settlement c i)
                             then rejectionOf (transformModule c a bh (raws ! j)) else None)
                    \<and> errorLog (runUpdateKeys c now w)
                        = errorLog w @ (case handled of None \<Rightarrow> [] | Some e \<Rightarrow> [e])
                            @ [unknownModuleError (id_raw (raws ! i))])
              \<and> exitCode (runUpdateKeys c now w) = Some 1
              \<and> stakingModules (runUpdateKeys c now w) = stakingModules w
          | None \<Rightarrow>
              (\<forall>handled u. getStakingModules c bh \<noteq> Exited handled u)
              \<and> exitCode (runUpdateKeys c now w) = exitCode w)
       \<and> (\<forall>ms. getStakingModules c bh = Returned ms \<longrightarrow>
             (\<forall>m \<in> set ms. id_sm m = 1 \<and> type_sm m = CURATED_ONCHAIN_V1_TYPE))"
proof -
  let ?order = "settleOrder (settlement c) (length raws)"
  let ?cbs = "map (\<lambda>i. (fst (settlement c i), transformModule c a bh (raws ! i))) ?order"
  have g: "getStakingModules c bh = promiseAll ?cbs (map (transformModule c a bh) raws)"
    using assms(2,3) by (rule getStakingModules_listed)
  have fe: "firstExit ?cbs
     = map_option (\<lambda>i. (fst (settlement c i), unknownModuleError (id_raw (raws ! i))))
         (find (\<lambda>i. unknownResolved c a bh (raws ! i)) ?order)"
    by (rule firstExit_find)
  have known: "\<forall>ms. getStakingModules c bh = Returned ms \<longrightarrow>
             (\<forall>m \<in> set ms. id_sm m = 1 \<and> type_sm m = CURATED_ONCHAIN_V1_TYPE)"
    using getStakingModules_Returned_known by blast
  show ?thesis
  proof (cases "find (\<lambda>i. unknownResolved c a bh (raws ! i)) ?order")
    case None
    with fe have "firstExit ?cbs = None" by simp
    then have ne: "getStakingModules c bh \<noteq> Exited handled u" for handled u
      by (simp add: g promiseAll_def split: option.splits)
    have "exitCode (runUpdateKeys c now w) = exitCode w"
    proof (rule no_exit_keeps_process)
      fix bh' h u assume "getBlockHash c = Inr bh'"
      with assms(1) have "bh' = bh" by simp
      with ne show "getStakingModules c bh' \<noteq> Exited h u" by simp
    qed
    with None ne known show ?thesis by simp
  next
    case (Some i)
    then have "i \<in> set ?order" by (auto simp: find_Some_iff)
    then have i: "i < length raws" by (simp add: settleOrder_set)
    let ?u = "unknownModuleError (id_raw (raws ! i))"
    let ?pin = "(case find (\<lambda>j. rejectionOf (transformModule c a bh (raws ! j)) \<noteq> None) ?order of
                   None \<Rightarrow> None
                 | Some j \<Rightarrow>
                     if fst (settlement c j) < fst (settlement c i)
                     then rejectionOf (transformModule c a bh (raws ! j)) else None)"
    from Some fe have fx: "firstExit ?cbs = Some (fst (settlement c i), ?u)" by simp
    have fr: "(case firstRejection ?cbs of
                 Some (t0, e) \<Rightarrow> if t0 < fst (settlement c i) then Some e else None
               | None \<Rightarrow> None) = ?pin"
    proof (cases "find (\<lambda>j. rejectionOf (transformModule c a bh (raws ! j)) \<noteq> None) ?order")
      case None
      then show ?thesis
        by (simp add: firstRejection_find
            [of "\<lambda>i. fst (settlement c i)" "\<lambda>i. transformModule c a bh (raws ! i)" ?order])
    next
      case (Some j)
      then have "rejectionOf (transformModule c a bh (raws ! j)) \<noteq> None"
        by (auto simp: find_Some_iff)
      then obtain e where e: "rejectionOf (transformModule c a bh (raws ! j)) = Some e"
        by blast
      with Some have "firstRejection ?cbs = Some (fst (settlement c j), e)"
        by (simp add: firstRejection_find
            [of "\<lambda>i. fst (settlement c i)" "\<lambda>i. transformModule c a bh (raws ! i)" ?order])
      with Some e show ?thesis by simp
    qed
    define handled where "handled = ?pin"
    have ex: "getStakingModules c bh = Exited handled ?u"
      unfolding handled_def fr [symmetric] by (simp add: g promiseAll_def fx)
    have pin: "handled = ?pin" by (simp add: handled_def)
    have run: "exitCode (runUpdateKeys c now w) = Some 1
              \<and> stakingModules (runUpdateKeys c now w) = stakingModules w
              \<and> errorLog (runUpdateKeys c now w)
                  = errorLog w @ (case handled of None \<Rightarrow> [] | Some e \<Rightarrow> [e]) @ [?u]"
    proof (cases handled)
      case None
      with ex assms(1) have "runUpdateKeys c now w = process_exit 1 (logger_error ?u w)"
        by (simp add: runUpdateKeys_def updateKeys_def)
      then have "exitCode (runUpdateKeys c now w) = Some 1"
        "stakingModules (runUpdateKeys c now w) = stakingModules w"
        "errorLog (runUpdateKeys c now w) = errorLog w @ [] @ [?u]"
        by (simp_all add: process_exit_def logger_error_def)
      with None show ?thesis by simp
    next
      case (Some e)
      with ex assms(1) have "runUpdateKeys c now w = process_exit 1 (logger_error ?u (logger_error e w))"
        by (simp add: runUpdateKeys_def updateKeys_def)
      then have "exitCode (runUpdateKeys c now w) = Some 1"
        "stakingModules (runUpdateKeys c now w) = stakingModules w"
        "errorLog (runUpdateKeys c now w) = errorLog w @ [e] @ [?u]"
        by (simp_all add: process_exit_def logger_error_def)
      with Some show ?thesis by simp
    qed
    from ex pin run have "\<exists>handled.
                    getStakingModules c bh = Exited handled ?u
                    \<and> handled = ?pin
                    \<and> errorLog (runUpdateKeys c now w)
                        = errorLog w @ (case handled of None \<Rightarrow> [] | Some e \<Rightarrow> [e]) @ [?u]"
      by blast
    with Some i run known show ?thesis by simp
  qed
qed

theorem unknown_module_ends_process_witness:
  "getStakingModules unknown_module ''0xb10c'' = Exited None (Error ''Staking Module id 2 is unknown'')
   \<and> errorLog (runUpdateKeys unknown_module 1700000012000 initial_world) = [Error ''Staking Module id 2 is unknown'']
   \<and> exitCode (runUpdateKeys unknown_module 1700000012000 initial_world) = Some 1
   \<and> stakingModules (runUpdateKeys unknown_module 1700000012000 initial_world) = []
   \<and> errorLog (runUpdateKeys two_unknown 1700000012000 initial_world) = [Error ''Staking Module id 2 is unknown'']
   \<and> getStakingModules (healthy_chain None) ''0xb10c'' = Returned [module1]
   \<and> exitCode (runUpdateKeys (healthy_chain None) 1700000012000 initial_world) = None"
proof -
  let ?a = "''0xFdDf38947aFB03C621C71b06C9C70bce73f12999''"
  have u: "getBlockHash unknown_module = Inr ''0xb10c''" "getStakingRouter unknown_module ''0xb10c'' = Inr ?a"
    "contract_getStakingModules unknown_module ?a ''0xb10c'' = Inr [module1_raw, module2_raw]"
    by (simp_all add: unknown_module_def healthy_chain_def)
  have fu: "find (\<lambda>i. unknownResolved unknown_module ?a ''0xb10c'' ([module1_raw, module2_raw] ! i))
              (settleOrder (settlement unknown_module) (length [module1_raw, module2_raw])) = Some 1"
    by (simp add: unknown_module_def healthy_chain_def settleOrder_def unknown_defs module1_raw_def)
  have gu: "getStakingModules unknown_module ''0xb10c'' = Exited None (Error ''Staking Module id 2 is unknown'')"
    by (simp add: cycle_defs run_defs unknown_module_def unknown_defs)
  have e2: "unknownModuleError (id_raw ([module1_raw, module2_raw] ! 1)) = Error ''Staking Module id 2 is unknown''"
    by (simp add: unknown_defs)
  note t1 = unknown_module_ends_process [OF u, of 1700000012000 initial_world]
  from t1 fu gu e2 have r1:
    "errorLog (runUpdateKeys unknown_module 1700000012000 initial_world) = [Error ''Staking Module id 2 is unknown'']"
    "exitCode (runUpdateKeys unknown_module 1700000012000 initial_world) = Some 1"
    "stakingModules (runUpdateKeys unknown_module 1700000012000 initial_world) = []"
    by (auto simp: initial_world_def)
  have v: "getBlockHash two_unknown = Inr ''0xb10c''" "getStakingRouter two_unknown ''0xb10c'' = Inr ?a"
    "contract_getStakingModules two_unknown ?a ''0xb10c'' = Inr [module2_raw, module12_raw]"
    by (simp_all add: two_unknown_def healthy_chain_def)
  have fv: "find (\<lambda>i. unknownResolved two_unknown ?a ''0xb10c'' ([module2_raw, module12_raw] ! i))
              (settleOrder (settlement two_unknown) (length [module2_raw, module12_raw])) = Some 0"
    by (simp add: two_unknown_def healthy_chain_def settleOrder_def unknown_defs module1_raw_def)
  have gv: "getStakingModules two_unknown ''0xb10c'' = Exited None (Error ''Staking Module id 2 is unknown'')"
    by (simp add: cycle_defs run_defs two_unknown_def unknown_defs)
  have e0: "unknownModuleError (id_raw ([module2_raw, module12_raw] ! 0)) = Error ''Staking Module id 2 is unknown''"
    by (simp add: unknown_defs module1_raw_def)
  note t2 = unknown_module_ends_process [OF v, of 1700000012000 initial_world]
  from t2 fv gv e0 have r2:
    "errorLog (runUpdateKeys two_unknown 1700000012000 initial_world) = [Error ''Staking Module id 2 is unknown'']"
    by (auto simp: initial_world_def)
  have h: "getBlockHash (healthy_chain None) = Inr ''0xb10c''"
    "getStakingRouter (healthy_chain None) ''0xb10c'' = Inr ?a"
    "contract_getStakingModules (healthy_chain None) ?a ''0xb10c'' = Inr [module1_raw]"
    by (simp_all add: healthy_chain_def)
  have fh: "find (\<lambda>i. unknownResolved (healthy_chain None) ?a ''0xb10c'' ([module1_raw] ! i))
              (settleOrder (settlement (healthy_chain None)) (length [module1_raw])) = None"
    by (simp add: healthy_chain_def settleOrder_def unknown_defs module1_raw_def)
  have gh: "getStakingModules (healthy_chain None) ''0xb10c'' = Returned [module1]"
    by (simp add: cycle_defs run_defs)
  note t3 = unknown_module_ends_process [OF h, of 1700000012000 initial_world]
  from t3 fh have r3: "exitCode (runUpdateKeys (healthy_chain None) 1700000012000 initial_world) = None"
    by (simp add: initial_world_def)
  from gu r1 r2 gh r3 show ?thesis by (intro conjI)
qed

section \<open>Operator metrics\<close>

lemma setOperator_dom: "dom (setOperator g op) = dom g \<union> operatorLabels op"
  by (auto simp: setOperator_def gauge_set_def operatorLabels_def)

lemma foldl_setOperator_dom:
  "dom (foldl setOperator g ops) = dom g \<union> \<Union> (operatorLabels ` set ops)"
  by (induction ops arbitrary: g) (auto simp: setOperator_dom)

lemma foldl_setOperator_other:
  "i \<notin> index ` set ops \<Longrightarrow>
     foldl setOperator g ops \<lparr>operator = i, srModuleId = m, used = u\<rparr> = g \<lparr>operator = i, srModuleId = m, used = u\<rparr>"
  by (induction ops arbitrary: g) (auto simp: setOperator_def gauge_set_def)

lemma foldl_setOperator_value:
  "distinct (map index ops) \<Longrightarrow> op \<in> set ops \<Longrightarrow>
     foldl setOperator g ops \<lparr>operator = index op, srModuleId = 1, used = ''true''\<rparr> = Some (usedSigningKeys op)
     \<and> foldl setOperator g ops \<lparr>operator = index op, srModuleId = 1, used = ''false''\<rparr>
         = Some (totalSigningKeys op - usedSigningKeys op)"
proof (induction ops arbitrary: g)
  case Nil
  then show ?case by simp
next
  case (Cons x xs)
  show ?case
  proof (cases "op \<in> set xs")
    case True
    with Cons show ?thesis by simp
  next
    case False
    with Cons.prems have x: "op = x" and "index op \<notin> index ` set xs" by auto
    then show ?thesis
      by (simp add: foldl_setOperator_other) (simp add: setOperator_def gauge_set_def)
  qed
qed

lemma gauge_setMetrics:
  "registryNumberOfKeysBySRModuleAndOperator (setMetrics v) = foldl setOperator Map.empty (curatedOperators v)"
  by (simp add: setMetrics_def setCuratedMetrics_def setCuratedOperatorsMetric_def gauge_reset_def Let_def
      split: option.splits)

text \<open>
  C9.  After \<open>setCuratedOperatorsMetric\<close> the operator gauge holds the label sets
  of the cached operators, a used and an unused one for each, and no other: whatever it
  held before is gone, so an operator of the cycle before that is no longer cached has no
  entry.  When the cached operators have distinct indices the used entry is the
  operator's count of used keys and the unused entry is total minus used.  The same
  holds for the gauge after every completed cycle.
\<close>

theorem operator_metrics_rebuilt:
  "dom (registryNumberOfKeysBySRModuleAndOperator (setCuratedOperatorsMetric w))
     = \<Union> (operatorLabels ` set (curatedOperators w))
   \<and> (\<forall>i u. i \<notin> index ` set (curatedOperators w) \<longrightarrow>
         registryNumberOfKeysBySRModuleAndOperator (setCuratedOperatorsMetric w)
           \<lparr>operator = i, srModuleId = 1, used = u\<rparr> = None)
   \<and> (distinct (map index (curatedOperators w)) \<longrightarrow>
        (\<forall>op \<in> set (curatedOperators w).
           registryNumberOfKeysBySRModuleAndOperator (setCuratedOperatorsMetric w)
             \<lparr>operator = index op, srModuleId = 1, used = ''true''\<rparr> = Some (usedSigningKeys op)
           \<and> registryNumberOfKeysBySRModuleAndOperator (setCuratedOperatorsMetric w)
             \<lparr>operator = index op, srModuleId = 1, used = ''false''\<rparr>
               = Some (totalSigningKeys op - usedSigningKeys op)))
   \<and> (updateKeys c now w = (Completed, w') \<longrightarrow>
        dom (registryNumberOfKeysBySRModuleAndOperator w') = \<Union> (operatorLabels ` set (curatedOperators w')))"
proof -
  have g: "registryNumberOfKeysBySRModuleAndOperator (setCuratedOperatorsMetric v)
             = foldl setOperator Map.empty (curatedOperators v)" for v
    by (simp add: setCuratedOperatorsMetric_def gauge_reset_def)
  have d: "dom (registryNumberOfKeysBySRModuleAndOperator (setCuratedOperatorsMetric v))
             = \<Union> (operatorLabels ` set (curatedOperators v))" for v
    by (simp add: g foldl_setOperator_dom)
  have cyc: "dom (registryNumberOfKeysBySRModuleAndOperator w') = \<Union> (operatorLabels ` set (curatedOperators w'))"
    if "updateKeys c now w = (Completed, w')"
    using that by (elim updateKeys_Completed) (simp add: gauge_setMetrics foldl_setOperator_dom)
  show ?thesis
    using d [of w] cyc foldl_setOperator_value [of "curatedOperators w" _ Map.empty]
    by (simp add: g foldl_setOperator_other)
qed

theorem operator_metrics_rebuilt_witness:
  "registryNumberOfKeysBySRModuleAndOperator operator5_removed \<lparr>operator = 5, srModuleId = 1, used = ''true''\<rparr> = Some 2
   \<and> 5 \<notin> index ` set (curatedOperators operator5_removed)
   \<and> registryNumberOfKeysBySRModuleAndOperator (setCuratedOperatorsMetric operator5_removed)
        \<lparr>operator = 5, srModuleId = 1, used = ''true''\<rparr> = None
   \<and> registryNumberOfKeysBySRModuleAndOperator (setCuratedOperatorsMetric operator5_removed)
        \<lparr>operator = 5, srModuleId = 1, used = ''false''\<rparr> = None
   \<and> distinct (map index (curatedOperators operator5_removed))
   \<and> registryNumberOfKeysBySRModuleAndOperator (setCuratedOperatorsMetric operator5_removed)
        \<lparr>operator = 0, srModuleId = 1, used = ''false''\<rparr> = Some 6
   \<and> dom (registryNumberOfKeysBySRModuleAndOperator (setCuratedOperatorsMetric operator5_removed))
       = {\<lparr>operator = 0, srModuleId = 1, used = ''true''\<rparr>, \<lparr>operator = 0, srModuleId = 1, used = ''false''\<rparr>,
          \<lparr>operator = 1, srModuleId = 1, used = ''true''\<rparr>, \<lparr>operator = 1, srModuleId = 1, used = ''false''\<rparr>}
   \<and> updateKeys (healthy_chain (Some meta100)) 1700000012000 operator5_removed
       = (Completed, runUpdateKeys (healthy_chain (Some meta100)) 1700000012000 operator5_removed)
   \<and> dom (registryNumberOfKeysBySRModuleAndOperator
             (runUpdateKeys (healthy_chain (Some meta100)) 1700000012000 operator5_removed))
       = \<Union> (operatorLabels ` set operators2)"
proof -
  have ops: "curatedOperators operator5_removed = operators2"
    by (simp add: operator5_removed_def)
  have n: "5 \<notin> index ` set (curatedOperators operator5_removed)"
    "distinct (map index (curatedOperators operator5_removed))"
    "\<lparr>index = 0, totalSigningKeys = 10, usedSigningKeys = 4\<rparr> \<in> set (curatedOperators operator5_removed)"
    by (simp_all add: ops operators2_def)
  have b: "registryNumberOfKeysBySRModuleAndOperator operator5_removed \<lparr>operator = 5, srModuleId = 1, used = ''true''\<rparr> = Some 2"
    by (simp add: operator5_removed_def)
  let ?w' = "runUpdateKeys (healthy_chain (Some meta100)) 1700000012000 operator5_removed"
  have h: "updateKeys (healthy_chain (Some meta100)) 1700000012000 operator5_removed = (Completed, ?w')"
    by (simp add: operator5_removed_def cycle_defs run_defs)
  have o: "curatedOperators ?w' = operators2"
    by (simp add: operator5_removed_def cycle_defs run_defs)
  note t = operator_metrics_rebuilt [of operator5_removed "healthy_chain (Some meta100)" 1700000012000 ?w']
  from t h o have cyc: "dom (registryNumberOfKeysBySRModuleAndOperator ?w') = \<Union> (operatorLabels ` set operators2)"
    by simp
  from t n have "registryNumberOfKeysBySRModuleAndOperator (setCuratedOperatorsMetric operator5_removed)
        \<lparr>operator = 5, srModuleId = 1, used = ''true''\<rparr> = None"
    "registryNumberOfKeysBySRModuleAndOperator (setCuratedOperatorsMetric operator5_removed)
        \<lparr>operator = 5, srModuleId = 1, used = ''false''\<rparr> = None"
    by blast+
  moreover from t n have "registryNumberOfKeysBySRModuleAndOperator (setCuratedOperatorsMetric operator5_removed)
        \<lparr>operator = 0, srModuleId = 1, used = ''false''\<rparr> = Some 6"
    by fastforce
  moreover from t [THEN conjunct1]
  have "dom (registryNumberOfKeysBySRModuleAndOperator (setCuratedOperatorsMetric operator5_removed))
       = {\<lparr>operator = 0, srModuleId = 1, used = ''true''\<rparr>, \<lparr>operator = 0, srModuleId = 1, used = ''false''\<rparr>,
          \<lparr>operator = 1, srModuleId = 1, used = ''true''\<rparr>, \<lparr>operator = 1, srModuleId = 1, used = ''false''\<rparr>}"
    by (auto simp: ops operators2_def operatorLabels_def)
  ultimately show ?thesis using n b h cyc by simp
qed

section \<open>Keys by public key\<close>










section \<open>A module by id or address\<close>

lemma find_split:
  "find P xs = Some m \<Longrightarrow> \<exists>before after. xs = before @ m # after \<and> P m \<and> (\<forall>x \<in> set before. \<not> P x)"
proof (induction xs)
  case Nil
  then show ?case by simp
next
  case (Cons x xs)
  show ?case
  proof (cases "P x")
    case True
    with Cons.prems have "x = m" by simp
    with True have "x # xs = [] @ m # xs \<and> P m \<and> (\<forall>y \<in> set []. \<not> P y)" by simp
    then show ?thesis by blast
  next
    case False
    with Cons.prems have "find P xs = Some m" by simp
    from Cons.IH [OF this] obtain before after where
      "xs = before @ m # after" "P m" "\<forall>y \<in> set before. \<not> P y" by blast
    with False have "x # xs = (x # before) @ m # after \<and> P m \<and> (\<forall>y \<in> set (x # before). \<not> P y)"
      by simp
    then show ?thesis by blast
  qed
qed

text \<open>
  C8.  For a number \<open>n\<close>, \<open>getStakingModule\<close> returns the first cached module whose
  id is \<open>n\<close> or whose address converts to \<open>n\<close>, and returns nothing exactly when no
  cached module is such.  For a string \<open>s\<close> it returns the first cached module whose
  address is \<open>s\<close> or whose id is what \<open>s\<close> converts to, and returns nothing exactly
  when no cached module is such.  So every cached module is found under its id as a
  number, under any string that converts to its id, and under its address.
\<close>

theorem getStakingModule_by_id_or_address:
  "(case getStakingModule ToNumber w (Num n) of
      Some m \<Rightarrow>
        (id_sm m = n \<or> ToNumber (stakingModuleAddress m) = Some n)
        \<and> (\<exists>before after. stakingModules w = before @ m # after
              \<and> (\<forall>x \<in> set before. id_sm x \<noteq> n \<and> ToNumber (stakingModuleAddress x) \<noteq> Some n))
    | None \<Rightarrow> \<forall>m \<in> set (stakingModules w). id_sm m \<noteq> n \<and> ToNumber (stakingModuleAddress m) \<noteq> Some n)
   \<and> (case getStakingModule ToNumber w (Str s) of
      Some m \<Rightarrow>
        (stakingModuleAddress m = s \<or> ToNumber s = Some (id_sm m))
        \<and> (\<exists>before after. stakingModules w = before @ m # after
              \<and> (\<forall>x \<in> set before. stakingModuleAddress x \<noteq> s \<and> ToNumber s \<noteq> Some (id_sm x)))
    | None \<Rightarrow> \<forall>m \<in> set (stakingModules w). stakingModuleAddress m \<noteq> s \<and> ToNumber s \<noteq> Some (id_sm m))
   \<and> (\<forall>m \<in> set (stakingModules w).
         getStakingModule ToNumber w (Num (id_sm m)) \<noteq> None
         \<and> getStakingModule ToNumber w (Str (stakingModuleAddress m)) \<noteq> None
         \<and> (\<forall>s'. ToNumber s' = Some (id_sm m) \<longrightarrow> getStakingModule ToNumber w (Str s') \<noteq> None))"
proof -
  have found: "getStakingModule ToNumber w i \<noteq> None"
    if "m \<in> set (stakingModules w)" "matchesModule ToNumber i m" for i m
    using that by (auto simp: getStakingModule_def find_None_iff)
  have pos: "\<forall>m \<in> set (stakingModules w).
         getStakingModule ToNumber w (Num (id_sm m)) \<noteq> None
         \<and> getStakingModule ToNumber w (Str (stakingModuleAddress m)) \<noteq> None
         \<and> (\<forall>s'. ToNumber s' = Some (id_sm m) \<longrightarrow> getStakingModule ToNumber w (Str s') \<noteq> None)"
    using found by (simp add: matchesModule_def)
  have num: "matchesModule ToNumber (Num n) m \<longleftrightarrow> id_sm m = n \<or> ToNumber (stakingModuleAddress m) = Some n" for m
    by (auto simp: matchesModule_def)
  have str: "matchesModule ToNumber (Str s) m \<longleftrightarrow> stakingModuleAddress m = s \<or> ToNumber s = Some (id_sm m)" for m
    by (auto simp: matchesModule_def)
  have "case getStakingModule ToNumber w i of
          Some m \<Rightarrow> matchesModule ToNumber i m
            \<and> (\<exists>before after. stakingModules w = before @ m # after
                  \<and> (\<forall>x \<in> set before. \<not> matchesModule ToNumber i x))
        | None \<Rightarrow> \<forall>m \<in> set (stakingModules w). \<not> matchesModule ToNumber i m" for i
  proof (cases "getStakingModule ToNumber w i")
    case None
    then have "\<forall>m \<in> set (stakingModules w). \<not> matchesModule ToNumber i m"
      by (simp add: getStakingModule_def find_None_iff)
    with None show ?thesis by simp
  next
    case (Some m)
    then have "find (matchesModule ToNumber i) (stakingModules w) = Some m"
      by (simp add: getStakingModule_def)
    from find_split [OF this] have "matchesModule ToNumber i m
            \<and> (\<exists>before after. stakingModules w = before @ m # after
                  \<and> (\<forall>x \<in> set before. \<not> matchesModule ToNumber i x))"
      by blast
    with Some show ?thesis by simp
  qed
  note both = this [of "Num n"] this [of "Str s"]
  show ?thesis
    using both pos unfolding num str by (simp split: option.splits)
qed

theorem getStakingModule_by_id_or_address_witness:
  "stakingModules cached100 = [module1]
   \<and> getStakingModule decimal12 cached100 (Num 1) = Some module1
   \<and> getStakingModule decimal12 cached100 (Str ''1'') = Some module1
   \<and> getStakingModule decimal12 cached100 (Str ''0x55032650b14df07b85bF18A3a3eC8E0Af2e028d5'') = Some module1
   \<and> getStakingModule decimal12 cached100 (Num 999) = None
   \<and> getStakingModule decimal12 cached100 (Str ''2'') = None"
proof -
  have c: "stakingModules cached100 = [module1]"
    by (simp add: cached100_def cycle_defs run_defs)
  have m: "id_sm module1 = 1" "stakingModuleAddress module1 = ''0x55032650b14df07b85bF18A3a3eC8E0Af2e028d5''"
    "decimal12 ''1'' = Some 1" "decimal12 ''2'' = Some 2" "decimal12 (stakingModuleAddress module1) = None"
    by (simp_all add: module1_def decimal12_def)
  note t = getStakingModule_by_id_or_address [where ToNumber = decimal12 and w = cached100]
  have only: "x = module1" if "getStakingModule decimal12 cached100 i = Some x" for i x
  proof -
    from that have "find (matchesModule decimal12 i) [module1] = Some x"
      by (simp add: getStakingModule_def c)
    then show ?thesis by (simp split: if_splits)
  qed
  from t [of 1 "''1''"] c have pos: "getStakingModule decimal12 cached100 (Num (id_sm module1)) \<noteq> None"
    "getStakingModule decimal12 cached100 (Str (stakingModuleAddress module1)) \<noteq> None"
    "decimal12 ''1'' = Some (id_sm module1) \<longrightarrow> getStakingModule decimal12 cached100 (Str ''1'') \<noteq> None"
    by simp_all
  with m have "getStakingModule decimal12 cached100 (Num 1) \<noteq> None"
    "getStakingModule decimal12 cached100 (Str ''1'') \<noteq> None"
    "getStakingModule decimal12 cached100 (Str ''0x55032650b14df07b85bF18A3a3eC8E0Af2e028d5'') \<noteq> None"
    by simp_all
  then have found: "getStakingModule decimal12 cached100 (Num 1) = Some module1"
    "getStakingModule decimal12 cached100 (Str ''1'') = Some module1"
    "getStakingModule decimal12 cached100 (Str ''0x55032650b14df07b85bF18A3a3eC8E0Af2e028d5'') = Some module1"
    using only by blast+
  have n1: "getStakingModule decimal12 cached100 (Num 999) = None"
  proof (cases "getStakingModule decimal12 cached100 (Num 999)")
    case None
    then show ?thesis .
  next
    case (Some x)
    with only have x: "x = module1" by blast
    from t [of 999 "''2''"] Some x m show ?thesis by simp
  qed
  have n2: "getStakingModule decimal12 cached100 (Str ''2'') = None"
  proof (cases "getStakingModule decimal12 cached100 (Str ''2'')")
    case None
    then show ?thesis .
  next
    case (Some x)
    with only have x: "x = module1" by blast
    from t [of 999 "''2''"] Some x m show ?thesis by simp
  qed
  from c found n1 n2 show ?thesis by (intro conjI)
qed

section \<open>At most one refresh\<close>

lemma oneAtTime_consistent: "consistent s \<Longrightarrow> consistent (oneAtTime s t)"
  by (cases t) (auto simp: consistent_def)

lemma runTriggers_consistent: "consistent s \<Longrightarrow> consistent (runTriggers s ts)"
  unfolding runTriggers_def
  by (induction ts arbitrary: s) (simp_all add: oneAtTime_consistent)

lemma oneAtTime_counts:
  "\<not> stopped s \<Longrightarrow> t \<noteq> Exit \<Longrightarrow>
     \<not> stopped (oneAtTime s t)
     \<and> started (oneAtTime s t) + dropped (oneAtTime s t)
         = started s + dropped s + (if t = Invoke then 1 else 0)"
  by (cases t) auto

lemma runTriggers_counts:
  "\<not> stopped s \<Longrightarrow> Exit \<notin> set ts \<Longrightarrow>
     started (runTriggers s ts) + dropped (runTriggers s ts)
       = started s + dropped s + length (filter (\<lambda>t. t = Invoke) ts)"
  unfolding runTriggers_def
proof (induction ts arbitrary: s)
  case Nil
  then show ?case by simp
next
  case (Cons t ts)
  from Cons.prems have t: "t \<noteq> Exit" and ts: "Exit \<notin> set ts" by auto
  note step = oneAtTime_counts [OF Cons.prems(1) t]
  from step have "\<not> stopped (oneAtTime s t)" by simp
  from Cons.IH [OF this ts] step show ?case by simp
qed

lemma oneAtTime_dropped:
  "oneAtTime (s\<lparr>dropped := Suc (dropped s)\<rparr>) t = (oneAtTime s t)\<lparr>dropped := Suc (dropped (oneAtTime s t))\<rparr>"
  by (cases t) auto

lemma runTriggers_dropped:
  "runTriggers (s\<lparr>dropped := Suc (dropped s)\<rparr>) ts
     = (runTriggers s ts)\<lparr>dropped := Suc (dropped (runTriggers s ts))\<rparr>"
  unfolding runTriggers_def
  by (induction ts arbitrary: s) (simp_all add: oneAtTime_dropped)

lemma runTriggers_append: "runTriggers s (ts @ us) = runTriggers (runTriggers s ts) us"
  by (simp add: runTriggers_def)

text \<open>
  C1.  After every sequence of triggers and completions at most one refresh is in
  progress, and one is in progress exactly when the flag is set.  While the process runs,
  every trigger either started a refresh or was dropped.  A trigger that arrives while a refresh is in
  progress starts nothing, and whatever follows runs as if that trigger had not arrived:
  only the count of dropped triggers differs, so nothing was queued.
\<close>

theorem one_refresh_at_a_time:
  "active (runTriggers idle ts) \<le> 1
   \<and> (isExecuting (runTriggers idle ts) \<longleftrightarrow> active (runTriggers idle ts) = 1)
   \<and> (Exit \<notin> set ts \<longrightarrow>
        started (runTriggers idle ts) + dropped (runTriggers idle ts) = length (filter (\<lambda>t. t = Invoke) ts))
   \<and> (isExecuting (runTriggers idle ts) \<longrightarrow>
        started (runTriggers idle (ts @ [Invoke])) = started (runTriggers idle ts)
        \<and> active (runTriggers idle (ts @ [Invoke])) = 1
        \<and> runTriggers idle (ts @ Invoke # rest)
            = (runTriggers idle (ts @ rest))\<lparr>dropped := Suc (dropped (runTriggers idle (ts @ rest)))\<rparr>)"
proof -
  have "consistent idle" by (simp add: consistent_def idle_def)
  then have c: "consistent (runTriggers idle ts)" by (rule runTriggers_consistent)
  have n: "started (runTriggers idle ts) + dropped (runTriggers idle ts) = length (filter (\<lambda>t. t = Invoke) ts)"
    if "Exit \<notin> set ts"
    using runTriggers_counts [of idle ts] that by (simp add: idle_def)
  have running: "\<not> stopped (runTriggers idle ts)" if "isExecuting (runTriggers idle ts)"
    using c that by (auto simp: consistent_def)
  have d: "runTriggers idle (ts @ Invoke # rest)
            = (runTriggers idle (ts @ rest))\<lparr>dropped := Suc (dropped (runTriggers idle (ts @ rest)))\<rparr>"
    if "isExecuting (runTriggers idle ts)"
  proof -
    have "runTriggers idle (ts @ Invoke # rest) = runTriggers (oneAtTime (runTriggers idle ts) Invoke) rest"
      by (simp add: runTriggers_def)
    also have "oneAtTime (runTriggers idle ts) Invoke
                 = (runTriggers idle ts)\<lparr>dropped := Suc (dropped (runTriggers idle ts))\<rparr>"
      using that running by simp
    finally show ?thesis by (simp add: runTriggers_dropped runTriggers_append)
  qed
  have one: "started (runTriggers idle (ts @ [Invoke])) = started (runTriggers idle ts)
        \<and> active (runTriggers idle (ts @ [Invoke])) = 1" if "isExecuting (runTriggers idle ts)"
    using that c running by (simp add: runTriggers_def consistent_def)
  from c n d one show ?thesis by (auto simp: consistent_def split: if_splits)
qed

theorem one_refresh_at_a_time_witness:
  "isExecuting (runTriggers idle [Invoke])
   \<and> runTriggers idle [Invoke, Invoke, Done True, Invoke]
       = \<lparr>isExecuting = True, stopped = False, active = 1, started = 2, dropped = 1\<rparr>
   \<and> runTriggers idle [Invoke, Done True, Invoke]
       = \<lparr>isExecuting = True, stopped = False, active = 1, started = 2, dropped = 0\<rparr>
   \<and> Exit \<notin> set [Invoke, Invoke, Done True, Invoke]
   \<and> length (filter (\<lambda>t. t = Invoke) [Invoke, Invoke, Done True, Invoke]) = 3"
proof -
  have e: "isExecuting (runTriggers idle [Invoke])"
    by (simp add: runTriggers_def idle_def)
  have r: "runTriggers idle [Invoke, Done True, Invoke]
       = \<lparr>isExecuting = True, stopped = False, active = 1, started = 2, dropped = 0\<rparr>"
    by (simp add: runTriggers_def idle_def)
  from one_refresh_at_a_time [of "[Invoke]" "[Done True, Invoke]"] e
  have "runTriggers idle ([Invoke] @ Invoke # [Done True, Invoke])
            = (runTriggers idle ([Invoke] @ [Done True, Invoke]))
                \<lparr>dropped := Suc (dropped (runTriggers idle ([Invoke] @ [Done True, Invoke])))\<rparr>"
    by blast
  with r have q: "runTriggers idle [Invoke, Invoke, Done True, Invoke]
       = \<lparr>isExecuting = True, stopped = False, active = 1, started = 2, dropped = 1\<rparr>"
    by simp
  have x: "Exit \<notin> set [Invoke, Invoke, Done True, Invoke]" by simp
  from one_refresh_at_a_time [of "[Invoke, Invoke, Done True, Invoke]"] x q
  have "length (filter (\<lambda>t. t = Invoke) [Invoke, Invoke, Done True, Invoke]) = 3"
    by simp
  with e r q x show ?thesis by simp
qed

end
